theory Spec2Isabelle
  imports Main "HOL-Library.Char_ord" "HOL-Library.List_Lexorder" "HOL-Library.Multiset"
begin

section \<open>JavaScript values\<close>

text \<open>
  The values the program handles come out of \<^verbatim>\<open>JSON.parse\<close>, plus \<^verbatim>\<open>undefined\<close>, which
  property access and indexing produce. Numbers are never inspected by the program, so
  their representation is the type parameter \<open>'n\<close>. A string is a list of characters, one
  per code unit; \<^verbatim>\<open>.length\<close> is the length of the list and the relational operators
  on two strings are the lexicographic order on code units. \<open>JObj\<close> lists the own properties of an object.
\<close>

datatype 'n jsvalue =
    JUndefined
  | JNull
  | JBool bool
  | JNum 'n
  | JStr string
  | JArr "'n jsvalue list"
  | JObj "(string \<times> 'n jsvalue) list"

text \<open>
  What the program can throw: its own \<^verbatim>\<open>InstrumentError(message, invalidElement)\<close>, the
  \<^verbatim>\<open>TypeError\<close> of a property read on \<^verbatim>\<open>null\<close> or \<^verbatim>\<open>undefined\<close>, the \<^verbatim>\<open>SyntaxError\<close> of
  \<^verbatim>\<open>JSON.parse\<close>, the \<^verbatim>\<open>Error\<close> that \<^verbatim>\<open>getInstrumentsData\<close> raises, an error of the S3
  client (with its code) and an error of the template engine.
\<close>

datatype 'n error =
    InstrumentError string "'n jsvalue"
  | TypeError
  | SyntaxError
  | Error string
  | S3Error string
  | EjsError string

fun isArray :: "'n jsvalue \<Rightarrow> bool" where
  "isArray (JArr xs) = True"
| "isArray _ = False"

fun isString :: "'n jsvalue \<Rightarrow> bool" where
  "isString (JStr s) = True"
| "isString _ = False"

text \<open>\<^verbatim>\<open>v.length\<close>, read only behind \<^verbatim>\<open>_.isArray(v)\<close> or \<^verbatim>\<open>_.isString(v)\<close>.\<close>

fun js_length :: "'n jsvalue \<Rightarrow> nat" where
  "js_length (JArr xs) = length xs"
| "js_length (JStr s) = length s"
| "js_length _ = 0"

text \<open>The elements of an array, read only behind \<^verbatim>\<open>_.isArray\<close>.\<close>

fun elements :: "'n jsvalue \<Rightarrow> 'n jsvalue list" where
  "elements (JArr xs) = xs"
| "elements _ = []"

text \<open>
  \<^verbatim>\<open>row[i]\<close>: the element, \<^verbatim>\<open>undefined\<close> past the end of the array. The program indexes
  only rows that passed the array test of \<^verbatim>\<open>doParseAndValidation\<close>; indexing a value that
  is not an array is given \<^verbatim>\<open>undefined\<close> here.
\<close>

fun js_index :: "'n jsvalue \<Rightarrow> nat \<Rightarrow> 'n jsvalue" where
  "js_index (JArr xs) i = (if i < length xs then xs ! i else JUndefined)"
| "js_index _ i = JUndefined"

text \<open>
  \<^verbatim>\<open>parsedBody.data\<close>: a \<^verbatim>\<open>TypeError\<close> on \<^verbatim>\<open>null\<close> and \<^verbatim>\<open>undefined\<close>, the property of an
  object, \<^verbatim>\<open>undefined\<close> when the object has none or the value is a primitive or an array.
\<close>

fun dataField :: "'n jsvalue \<Rightarrow> 'n jsvalue" where
  "dataField (JObj kvs) = (case map_of kvs ''data'' of Some d \<Rightarrow> d | None \<Rightarrow> JUndefined)"
| "dataField _ = JUndefined"

fun get_data :: "'n jsvalue \<Rightarrow> 'n error + 'n jsvalue" where
  "get_data JUndefined = Inl TypeError"
| "get_data JNull = Inl TypeError"
| "get_data v = Inr (dataField v)"

section \<open>Instruments\<close>

record 'n instrument =
  ticker :: "'n jsvalue"
  shortName :: "'n jsvalue"
  longName :: "'n jsvalue"
  isinCode :: "'n jsvalue"
  type :: "'n jsvalue"

definition createInstrument :: "'n jsvalue \<Rightarrow> 'n instrument" where
  "createInstrument instrumentRow =
     \<lparr> ticker = js_index instrumentRow 0,
       shortName = js_index instrumentRow 1,
       longName = js_index instrumentRow 2,
       isinCode = js_index instrumentRow 3,
       type = js_index instrumentRow 4 \<rparr>"

text \<open>
  \<^verbatim>\<open>a > b\<close> and \<^verbatim>\<open>a < b\<close>: on two strings the order of their code units. The instruments
  the program compares carry strings (they passed the validator); on any other pair of
  operands JavaScript compares numeric conversions, which is outside this model, and both
  relations are given false here.
\<close>

fun js_gt :: "'n jsvalue \<Rightarrow> 'n jsvalue \<Rightarrow> bool" where
  "js_gt (JStr a) (JStr b) = (a > b)"
| "js_gt _ _ = False"

fun js_lt :: "'n jsvalue \<Rightarrow> 'n jsvalue \<Rightarrow> bool" where
  "js_lt (JStr a) (JStr b) = (a < b)"
| "js_lt _ _ = False"

definition instrumentSortCompare :: "'n instrument \<Rightarrow> 'n instrument \<Rightarrow> int" where
  "instrumentSortCompare a b =
     of_bool (js_gt (isinCode a) (isinCode b)) - of_bool (js_lt (isinCode a) (isinCode b))"

section \<open>The validator\<close>

text \<open>
  \<^verbatim>\<open>/^([A-Z]{2})[A-Z0-9]{9}\d{1}$/\<close>: an anchored sequence of character classes, each
  repeated a fixed number of times. Without the \<^verbatim>\<open>m\<close> flag \<^verbatim>\<open>$\<close> is the end of the input.
\<close>

definition isUpper :: "char \<Rightarrow> bool" where
  "isUpper c = (CHR ''A'' \<le> c \<and> c \<le> CHR ''Z'')"

definition isDigit :: "char \<Rightarrow> bool" where
  "isDigit c = (CHR ''0'' \<le> c \<and> c \<le> CHR ''9'')"

fun regex_match :: "((char \<Rightarrow> bool) \<times> nat) list \<Rightarrow> string \<Rightarrow> bool" where
  "regex_match [] s = (s = [])"
| "regex_match ((cls, n) # re) s =
     (n \<le> length s \<and> list_all cls (take n s) \<and> regex_match re (drop n s))"

definition ISIN_CODE_REGEX :: "((char \<Rightarrow> bool) \<times> nat) list" where
  "ISIN_CODE_REGEX = [(isUpper, 2), (\<lambda>c. isUpper c \<or> isDigit c, 9), (isDigit, 1)]"

text \<open>\<^verbatim>\<open>s.match(ISIN_CODE_REGEX)\<close>, read only behind \<^verbatim>\<open>_.isString(s)\<close>.\<close>

fun js_match :: "'n jsvalue \<Rightarrow> ((char \<Rightarrow> bool) \<times> nat) list \<Rightarrow> bool" where
  "js_match (JStr s) re = regex_match re s"
| "js_match _ re = False"

text \<open>\<^verbatim>\<open>forEach\<close> with a callback that may throw: the first throw ends the loop.\<close>

fun forEach :: "('a \<Rightarrow> 'e + unit) \<Rightarrow> 'a list \<Rightarrow> 'e + unit" where
  "forEach f [] = Inr ()"
| "forEach f (x # xs) = (case f x of Inl e \<Rightarrow> Inl e | Inr u \<Rightarrow> forEach f xs)"

text \<open>The five field checks of the callback, the same text in both variants of the source.\<close>

definition checkInstrument :: "'n instrument \<Rightarrow> 'n error + unit" where
  "checkInstrument instrument =
     (if \<not> isString (ticker instrument) \<or> js_length (ticker instrument) < 1
           \<or> js_length (ticker instrument) > 12
      then Inl (InstrumentError ''invalid instrument ticker'' (ticker instrument))
      else if \<not> isString (shortName instrument) \<or> js_length (shortName instrument) < 2
           \<or> js_length (shortName instrument) > 24
      then Inl (InstrumentError ''invalid instrument short name'' (shortName instrument))
      else if \<not> isString (longName instrument) \<or> js_length (longName instrument) < 2
           \<or> js_length (longName instrument) > 64
      then Inl (InstrumentError ''invalid instrument long name'' (longName instrument))
      else if \<not> isString (isinCode instrument)
           \<or> \<not> js_match (isinCode instrument) ISIN_CODE_REGEX
      then Inl (InstrumentError ''invalid instrument ISIN code'' (isinCode instrument))
      else if \<not> isString (type instrument) \<or> js_length (type instrument) > 24
      then Inl (InstrumentError ''invalid instrument type'' (type instrument))
      else Inr ())"

text \<open>The callback of \<^verbatim>\<open>instruments.forEach\<close> in src/instrument-updates-generator.js.\<close>

definition validateRow :: "'n jsvalue \<Rightarrow> 'n error + unit" where
  "validateRow instrumentRow =
     (if \<not> isArray instrumentRow \<or> js_length instrumentRow < 5 \<or> js_length instrumentRow > 7
      then Inl (InstrumentError ''invalid instrument row'' instrumentRow)
      else checkInstrument (createInstrument instrumentRow))"

text \<open>The same callback in src/unnamed/part_000: the row has exactly five fields.\<close>

definition validateRow_part_000 :: "'n jsvalue \<Rightarrow> 'n error + unit" where
  "validateRow_part_000 instrumentRow =
     (if \<not> isArray instrumentRow \<or> js_length instrumentRow \<noteq> 5
      then Inl (InstrumentError ''invalid instrument row'' instrumentRow)
      else checkInstrument (createInstrument instrumentRow))"

text \<open>
  \<^verbatim>\<open>doParseAndValidation(body)\<close> of src/instrument-updates-generator.js. \<^verbatim>\<open>JSON.parse\<close>
  is the engine's; it is the parameter \<open>JSON_parse\<close>, \<open>None\<close> where it throws.
\<close>

definition doParseAndValidation ::
  "(string \<Rightarrow> 'n jsvalue option) \<Rightarrow> string \<Rightarrow> 'n error + 'n jsvalue list" where
  "doParseAndValidation JSON_parse body =
     (case JSON_parse body of
        None \<Rightarrow> Inl SyntaxError
      | Some parsedBody \<Rightarrow>
         (case get_data parsedBody of
            Inl e \<Rightarrow> Inl e
          | Inr data \<Rightarrow>
             if \<not> isArray data \<or> js_length data = 0
             then Inl (InstrumentError ''invalid data'' data)
             else let instruments = elements data in
               (case forEach validateRow instruments of
                  Inl e \<Rightarrow> Inl e
                | Inr u \<Rightarrow> Inr instruments)))"

text \<open>\<^verbatim>\<open>doParseAndValidation(body)\<close> of src/unnamed/part_000.\<close>

definition doParseAndValidation_part_000 ::
  "(string \<Rightarrow> 'n jsvalue option) \<Rightarrow> string \<Rightarrow> 'n error + 'n jsvalue list" where
  "doParseAndValidation_part_000 JSON_parse body =
     (case JSON_parse body of
        None \<Rightarrow> Inl SyntaxError
      | Some parsedBody \<Rightarrow>
         (case get_data parsedBody of
            Inl e \<Rightarrow> Inl e
          | Inr data \<Rightarrow>
             if \<not> isArray data \<or> js_length data = 0
             then Inl (InstrumentError ''invalid data'' data)
             else let instruments = elements data in
               (case forEach validateRow_part_000 instruments of
                  Inl e \<Rightarrow> Inl e
                | Inr u \<Rightarrow> Inr instruments)))"

section \<open>The selector\<close>

text \<open>
  \<^verbatim>\<open>a === b\<close>: primitives are equal by value (no \<^verbatim>\<open>NaN\<close> comes out of JSON); an array or
  an object is equal to itself only, and the operands the program compares are never the
  same object (one is a constant or comes from another \<^verbatim>\<open>JSON.parse\<close>).
\<close>

fun js_strict_eq :: "'n jsvalue \<Rightarrow> 'n jsvalue \<Rightarrow> bool" where
  "js_strict_eq JUndefined JUndefined = True"
| "js_strict_eq JNull JNull = True"
| "js_strict_eq (JBool a) (JBool b) = (a = b)"
| "js_strict_eq (JNum a) (JNum b) = (a = b)"
| "js_strict_eq (JStr a) (JStr b) = (a = b)"
| "js_strict_eq _ _ = False"

text \<open>The three tracked types; the second and sixth letter of the first one is an e with an acute accent, code unit 0xE9.\<close>

definition INSTRUMENT_TYPES_TO_SAVE :: "string list" where
  "INSTRUMENT_TYPES_TO_SAVE =
     [''R'' @ [CHR 0xE9] @ ''szv'' @ [CHR 0xE9] @ ''ny'', ''ETF'', ''Pink Sheet'']"

fun indexOf :: "string list \<Rightarrow> 'n jsvalue \<Rightarrow> int" where
  "indexOf [] v = - 1"
| "indexOf (x # xs) v =
     (if js_strict_eq (JStr x) v then 0
      else let i = indexOf xs v in if i = - 1 then - 1 else i + 1)"

definition selectInstruments :: "'n jsvalue list \<Rightarrow> 'n jsvalue list" where
  "selectInstruments instruments =
     filter (\<lambda>instrumentRow.
        indexOf INSTRUMENT_TYPES_TO_SAVE (type (createInstrument instrumentRow)) \<noteq> - 1)
       instruments"

section \<open>Sorting and the array difference\<close>

text \<open>
  \<^verbatim>\<open>Array.prototype.sort(compare)\<close>, as a stable insertion sort: an element goes before
  the first element it does not compare greater than. The engine chooses the algorithm;
  for a comparator that is a total preorder every choice gives a sequence ascending by
  it, and the choices differ only in the order of elements that compare equal.
\<close>

fun insertSorted :: "('a \<Rightarrow> 'a \<Rightarrow> int) \<Rightarrow> 'a \<Rightarrow> 'a list \<Rightarrow> 'a list" where
  "insertSorted compare x [] = [x]"
| "insertSorted compare x (y # ys) =
     (if compare x y \<le> 0 then x # y # ys else y # insertSorted compare x ys)"

definition array_sort :: "('a \<Rightarrow> 'a \<Rightarrow> int) \<Rightarrow> 'a list \<Rightarrow> 'a list" where
  "array_sort compare xs = foldr (insertSorted compare) xs []"

record 'a diffData =
  removed :: "'a list"
  added :: "'a list"

text \<open>
  Modelled from the spec: \<^verbatim>\<open>arrayDiff.diff(a, b, compareFunc)\<close> of the package
  fast-array-diff, which the source requires and src/ does not contain. The
  specification (4.3, steps 3 and 4) has the difference decided by \<open>compareFunc\<close> alone:
  an element present only in the first sequence is \<^verbatim>\<open>removed\<close>, one present only in
  the second is \<^verbatim>\<open>added\<close>, one present in both is untouched; each list is in the order
  in which a merge-style co-traversal of the two sequences discovers it; what happens
  with repeated keys is left open. The function below is that co-traversal as a
  shortest edit script, which is how the package documents itself: equal heads are
  matched; otherwise the head of \<open>a\<close> is dropped or the head of \<open>b\<close> is taken, whichever
  leaves the shorter script, so that what stays untouched is a longest common
  subsequence. On sequences ascending by a key without duplicates, the only ones the
  statements on the difference below are about, the result is the set difference in
  each direction (lemma \<open>diff_sorted_distinct\<close>), whatever the choice between scripts
  of the same length.
\<close>

fun diff :: "'a list \<Rightarrow> 'a list \<Rightarrow> ('a \<Rightarrow> 'a \<Rightarrow> bool) \<Rightarrow> 'a diffData" where
  "diff [] b compareFunc = \<lparr> removed = [], added = b \<rparr>"
| "diff (x # a) [] compareFunc = \<lparr> removed = x # a, added = [] \<rparr>"
| "diff (x # a) (y # b) compareFunc =
     (if compareFunc x y then diff a b compareFunc
      else let del = diff a (y # b) compareFunc;
               ins = diff (x # a) b compareFunc
           in if length (removed del) + length (added del)
                   \<le> length (removed ins) + length (added ins)
              then del \<lparr> removed := x # removed del \<rparr>
              else ins \<lparr> added := y # added ins \<rparr>)"

section \<open>The persisted state and the world around a run\<close>

record 'n update =
  utype :: string
  dateTime :: string
  instrument :: "'n instrument"

record 'n dataFile =
  instruments :: "'n instrument list"
  updates :: "'n update list"

text \<open>
  The body of an S3 object. \<^verbatim>\<open>data.json\<close> holds \<^verbatim>\<open>JSON.stringify(dataFile)\<close> and is read
  back with \<^verbatim>\<open>JSON.parse\<close>: the body is kept as the value itself. Any other body fails
  to parse as a data file.
\<close>

datatype 'n body = JsonBody "'n dataFile" | HtmlBody string

datatype event = PutObject string | RenderFile

text \<open>
  What a run can change or observe: the bucket, the number of clock readings taken so
  far, and the trace of completed writes and rendering attempts, oldest first.
\<close>

record 'n world =
  bucket :: "string \<Rightarrow> 'n body option"
  ticks :: nat
  events :: "event list"

text \<open>
  What the collaborators answer during one run: the upstream response (\<open>None\<close> when the
  request is rejected), \<^verbatim>\<open>JSON.parse\<close>, the error code with which an S3 call fails if it
  does, the template engine, the clock (its k-th reading, as an ISO string) and the
  number \<^verbatim>\<open>new Date(s)\<close> stands for in a subtraction.
\<close>

record 'n env =
  http_response :: "string option"
  json_parse :: "string \<Rightarrow> 'n jsvalue option"
  s3_head_fault :: "string option"
  s3_get_fault :: "string option"
  s3_put_fault :: "string \<Rightarrow> string option"
  ejs_render :: "'n update list \<Rightarrow> string option"
  clock :: "nat \<Rightarrow> string"
  date_value :: "string \<Rightarrow> int"

definition DATA_FILE_NAME :: string where
  "DATA_FILE_NAME = ''data.json''"

text \<open>The three calls of the S3 client; a response carries a \<^verbatim>\<open>Body\<close> or none.\<close>

definition headObject :: "'n env \<Rightarrow> string \<Rightarrow> 'n world \<Rightarrow> 'n error + unit" where
  "headObject env key w =
     (case s3_head_fault env of
        Some code \<Rightarrow> Inl (S3Error code)
      | None \<Rightarrow> if bucket w key = None then Inl (S3Error ''NotFound'') else Inr ())"

definition getObject :: "'n env \<Rightarrow> string \<Rightarrow> 'n world \<Rightarrow> 'n error + 'n body option" where
  "getObject env key w =
     (case s3_get_fault env of
        Some code \<Rightarrow> Inl (S3Error code)
      | None \<Rightarrow>
         (case bucket w key of
            None \<Rightarrow> Inl (S3Error ''NoSuchKey'')
          | Some b \<Rightarrow> Inr (Some b)))"

definition putObject ::
  "'n env \<Rightarrow> string \<Rightarrow> 'n body \<Rightarrow> 'n world \<Rightarrow> ('n error + 'n body option) \<times> 'n world" where
  "putObject env key b w =
     (case s3_put_fault env key of
        Some code \<Rightarrow> (Inl (S3Error code), w)
      | None \<Rightarrow>
         (Inr None, w \<lparr> bucket := (bucket w)(key \<mapsto> b), events := events w @ [PutObject key] \<rparr>))"

section \<open>The stages of a run\<close>

definition getInstrumentsData :: "'n env \<Rightarrow> 'n error + string" where
  "getInstrumentsData env =
     (case http_response env of
        None \<Rightarrow> Inl (Error ''got non 200 response'')
      | Some b \<Rightarrow> Inr b)"

definition doesDataFileExist :: "'n env \<Rightarrow> 'n world \<Rightarrow> 'n error + bool" where
  "doesDataFileExist env w =
     (case headObject env DATA_FILE_NAME w of
        Inr u \<Rightarrow> Inr True
      | Inl err \<Rightarrow> if err = S3Error ''NotFound'' then Inr False else Inl err)"

definition initDataFileToS3 ::
  "'n env \<Rightarrow> 'n jsvalue list \<Rightarrow> 'n world \<Rightarrow> ('n error + 'n body option) \<times> 'n world" where
  "initDataFileToS3 env instrumentRows w =
     (let data = \<lparr> instruments =
                     array_sort instrumentSortCompare (map createInstrument instrumentRows),
                  updates = [] \<rparr>
      in putObject env DATA_FILE_NAME (JsonBody data) w)"

definition readDataFileFromS3 ::
  "'n env \<Rightarrow> 'n world \<Rightarrow> ('n error + 'n body option) \<times> 'n world" where
  "readDataFileFromS3 env w = (getObject env DATA_FILE_NAME w, w)"

text \<open>
  One \<^verbatim>\<open>forEach\<close> of \<^verbatim>\<open>saveDataFileToS3\<close>: every instrument is pushed onto the updates
  with the given type and a fresh reading of the clock.
\<close>

fun pushUpdates ::
  "'n env \<Rightarrow> string \<Rightarrow> 'n instrument list \<Rightarrow> 'n update list \<times> 'n world
    \<Rightarrow> 'n update list \<times> 'n world" where
  "pushUpdates env ty [] (ups, w) = (ups, w)"
| "pushUpdates env ty (i # is) (ups, w) =
     pushUpdates env ty is
       (ups @ [\<lparr> utype = ty, dateTime = clock env (ticks w), instrument = i \<rparr>],
        w \<lparr> ticks := Suc (ticks w) \<rparr>)"

definition saveDataFileToS3 ::
  "'n env \<Rightarrow> 'n jsvalue list \<Rightarrow> 'n body \<Rightarrow> 'n world
    \<Rightarrow> ('n error + 'n update list) \<times> 'n world" where
  "saveDataFileToS3 env instrumentRows dataFileBody w =
     (let new_instruments =
            array_sort instrumentSortCompare (map createInstrument instrumentRows)
      in case dataFileBody of
           HtmlBody s \<Rightarrow> (Inl SyntaxError, w)
         | JsonBody dataFile \<Rightarrow>
            (let old_instruments = array_sort instrumentSortCompare (instruments dataFile);
                 d = diff old_instruments new_instruments
                       (\<lambda>a b. js_strict_eq (isinCode a) (isinCode b));
                 (ups1, w1) = pushUpdates env ''removed'' (removed d) (updates dataFile, w);
                 (ups2, w2) = pushUpdates env ''added'' (added d) (ups1, w1);
                 dataFile' = \<lparr> instruments = new_instruments, updates = ups2 \<rparr>
             in case putObject env DATA_FILE_NAME (JsonBody dataFile') w2 of
                  (Inl e, w3) \<Rightarrow> (Inl e, w3)
                | (Inr r, w3) \<Rightarrow> (Inr (updates dataFile'), w3)))"

definition renderHtml ::
  "'n env \<Rightarrow> 'n update list \<Rightarrow> 'n world \<Rightarrow> ('n error + string) \<times> 'n world" where
  "renderHtml env instrumentUpdates w =
     (case ejs_render env instrumentUpdates of
        None \<Rightarrow> (Inl (EjsError ''render''), w \<lparr> events := events w @ [RenderFile] \<rparr>)
      | Some html \<Rightarrow> (Inr html, w \<lparr> events := events w @ [RenderFile] \<rparr>))"

definition uploadInstrumentUpdatesToS3 ::
  "'n env \<Rightarrow> string \<Rightarrow> 'n world \<Rightarrow> ('n error + 'n body option) \<times> 'n world" where
  "uploadInstrumentUpdatesToS3 env html w =
     putObject env ''instrument-updates.html'' (HtmlBody html) w"

text \<open>
  \<^verbatim>\<open>Handler\<close> of src/instrument-updates-generator.js, without its logging. Every
  \<^verbatim>\<open>await\<close> that rejects and every throw ends the run with that error.
\<close>

definition Handler :: "'n env \<Rightarrow> 'n world \<Rightarrow> ('n error + string) \<times> 'n world" where
  "Handler env w =
     (case getInstrumentsData env of
        Inl e \<Rightarrow> (Inl e, w)
      | Inr instrumentsData \<Rightarrow>
     (case doParseAndValidation (json_parse env) instrumentsData of
        Inl e \<Rightarrow> (Inl e, w)
      | Inr validated \<Rightarrow>
     (let selectedInstruments = selectInstruments validated in
      case doesDataFileExist env w of
        Inl e \<Rightarrow> (Inl e, w)
      | Inr exists \<Rightarrow>
     (case (if exists then readDataFileFromS3 env w
            else initDataFileToS3 env selectedInstruments w) of
        (Inl e, w1) \<Rightarrow> (Inl e, w1)
      | (Inr dataFile_Body, w1) \<Rightarrow>
     (case (case dataFile_Body of
              Some b \<Rightarrow> saveDataFileToS3 env selectedInstruments b w1
            | None \<Rightarrow> (Inr [], w1)) of
        (Inl e, w2) \<Rightarrow> (Inl e, w2)
      | (Inr instrumentUpdates, w2) \<Rightarrow>
     (let sorted_updates =
            array_sort (\<lambda>a b. date_value env (dateTime b) - date_value env (dateTime a))
              instrumentUpdates
      in case renderHtml env sorted_updates w2 of
        (Inl e, w3) \<Rightarrow> (Inl e, w3)
      | (Inr html, w3) \<Rightarrow>
     (case uploadInstrumentUpdatesToS3 env html w3 of
        (Inl e, w4) \<Rightarrow> (Inl e, w4)
      | (Inr r, w4) \<Rightarrow> (Inr ''instrument updates generated'', w4))))))))"

section \<open>Auxiliary notions for the statements\<close>

text \<open>
  The records that one \<^verbatim>\<open>forEach\<close> of \<^verbatim>\<open>saveDataFileToS3\<close> pushes for a list of
  instruments when the clock has been read \<open>t\<close> times before.
\<close>

fun stamped :: "'n env \<Rightarrow> string \<Rightarrow> nat \<Rightarrow> 'n instrument list \<Rightarrow> 'n update list" where
  "stamped env ty t [] = []"
| "stamped env ty t (i # is) =
     \<lparr> utype = ty, dateTime = clock env t, instrument = i \<rparr> # stamped env ty (Suc t) is"

text \<open>The ISIN of an instrument as a string, and the instruments whose ISIN is one.\<close>

definition isinKey :: "'n instrument \<Rightarrow> string" where
  "isinKey i = (case isinCode i of JStr s \<Rightarrow> s | _ \<Rightarrow> [])"

definition stringISINs :: "'n instrument list \<Rightarrow> bool" where
  "stringISINs is = list_all (\<lambda>i. isString (isinCode i)) is"

text \<open>
  The records one run of \<^verbatim>\<open>saveDataFileToS3\<close> appends when the clock has been read
  \<open>t\<close> times before: the \<^verbatim>\<open>removed\<close> ones, then the \<^verbatim>\<open>added\<close> ones, for the sorted
  prior and the sorted new instruments.
\<close>

definition appended ::
  "'n env \<Rightarrow> nat \<Rightarrow> 'n instrument list \<Rightarrow> 'n instrument list \<Rightarrow> 'n update list" where
  "appended env t old_sorted new_sorted =
     (let d = diff old_sorted new_sorted (\<lambda>a b. js_strict_eq (isinCode a) (isinCode b))
      in stamped env ''removed'' t (removed d)
         @ stamped env ''added'' (t + length (removed d)) (added d))"

text \<open>
  The conditions of the validator in the words of the specification: a string field
  with a length between two bounds; the ISIN pattern (two uppercase letters, nine
  uppercase letters or digits, one digit, twelve characters in all); the constraint on
  the field at each of the positions 0 to 4; a row that is an array of five to seven
  fields; a data field that is a non-empty array. A body is well-formed when its data
  field and every row are. The offending element of a body that is not is its data
  field, or a row of the wrong shape, or a field of a row that fails its constraint.
\<close>

fun strBetween :: "nat \<Rightarrow> nat \<Rightarrow> 'n jsvalue \<Rightarrow> bool" where
  "strBetween lo hi (JStr s) = (lo \<le> length s \<and> length s \<le> hi)"
| "strBetween lo hi _ = False"

definition isinPattern :: "string \<Rightarrow> bool" where
  "isinPattern s =
     (length s = 12 \<and> list_all isUpper (take 2 s)
      \<and> list_all (\<lambda>c. isUpper c \<or> isDigit c) (take 9 (drop 2 s))
      \<and> list_all isDigit (drop 11 s))"

fun isinField :: "'n jsvalue \<Rightarrow> bool" where
  "isinField (JStr s) = isinPattern s"
| "isinField _ = False"

definition fieldOk :: "nat \<Rightarrow> 'n jsvalue \<Rightarrow> bool" where
  "fieldOk i v =
     (if i = 0 then strBetween 1 12 v
      else if i = 1 then strBetween 2 24 v
      else if i = 2 then strBetween 2 64 v
      else if i = 3 then isinField v
      else if i = 4 then strBetween 0 24 v
      else True)"

definition rowShapeOk :: "'n jsvalue \<Rightarrow> bool" where
  "rowShapeOk r = (isArray r \<and> 5 \<le> js_length r \<and> js_length r \<le> 7)"

definition rowOk :: "'n jsvalue \<Rightarrow> bool" where
  "rowOk r = (rowShapeOk r \<and> list_all (\<lambda>i. fieldOk i (js_index r i)) [0..<5])"

definition dataOk :: "'n jsvalue \<Rightarrow> bool" where
  "dataOk d = (isArray d \<and> elements d \<noteq> [])"

definition bodyOk :: "'n jsvalue \<Rightarrow> bool" where
  "bodyOk v = (dataOk (dataField v) \<and> list_all rowOk (elements (dataField v)))"

definition offendingIn :: "'n jsvalue list \<Rightarrow> 'n jsvalue \<Rightarrow> bool" where
  "offendingIn rows e =
     list_ex (\<lambda>r. (\<not> rowShapeOk r \<and> e = r)
                 \<or> (rowShapeOk r \<and> list_ex (\<lambda>i. \<not> fieldOk i (js_index r i) \<and> e = js_index r i) [0..<5]))
       rows"

definition offending :: "'n jsvalue \<Rightarrow> 'n jsvalue \<Rightarrow> bool" where
  "offending v e =
     (if dataOk (dataField v) then offendingIn (elements (dataField v)) e
      else e = dataField v)"

text \<open>The order in which \<^verbatim>\<open>Handler\<close> hands the updates to the presenter.\<close>

definition presented :: "'n env \<Rightarrow> 'n update list \<Rightarrow> 'n update list" where
  "presented env ups =
     array_sort (\<lambda>a b. date_value env (dateTime b) - date_value env (dateTime a)) ups"

section \<open>Example data\<close>

text \<open>
  A prior state with two instruments and one update on record, a new snapshot that
  drops one instrument and brings one, and collaborators that all succeed.
\<close>

definition demoRow :: "string \<Rightarrow> nat jsvalue" where
  "demoRow isin =
     JArr [JStr ''TCK'', JStr ''Short'', JStr ''Long name'', JStr isin, JStr ''ETF'']"

definition demoParse :: "nat jsvalue list \<Rightarrow> string \<Rightarrow> nat jsvalue option" where
  "demoParse rows s = Some (JObj [(''data'', JArr rows)])"

definition demoEnv :: "nat env" where
  "demoEnv =
     \<lparr> http_response = Some ''body'',
       json_parse = demoParse [demoRow ''US0000000002'', demoRow ''US0000000001''],
       s3_head_fault = None,
       s3_get_fault = None,
       s3_put_fault = (\<lambda>key. None),
       ejs_render = (\<lambda>us. Some ''html''),
       clock = (\<lambda>k. ''2018-06-01T00:00:00.000Z''),
       date_value = (\<lambda>s. 0) \<rparr>"

definition demoUpdate :: "nat update" where
  "demoUpdate = \<lparr> utype = ''added'', dateTime = ''2018-05-01T00:00:00.000Z'',
                  instrument = createInstrument (demoRow ''US0000000001'') \<rparr>"

definition demoState :: "nat dataFile" where
  "demoState = \<lparr> instruments = [createInstrument (demoRow ''US0000000001''),
                                  createInstrument (demoRow ''US0000000003'')],
                 updates = [demoUpdate] \<rparr>"

definition demoRows :: "nat jsvalue list" where
  "demoRows = [demoRow ''US0000000002'', demoRow ''US0000000001'']"

definition demoLog :: "nat update list" where
  "demoLog = [demoUpdate,
      \<lparr> utype = ''removed'', dateTime = ''2018-06-01T00:00:00.000Z'',
        instrument = createInstrument (demoRow ''US0000000003'') \<rparr>,
      \<lparr> utype = ''added'', dateTime = ''2018-06-01T00:00:00.000Z'',
        instrument = createInstrument (demoRow ''US0000000002'') \<rparr>]"

definition demoNext :: "nat dataFile" where
  "demoNext = \<lparr> instruments = [createInstrument (demoRow ''US0000000001''),
                                 createInstrument (demoRow ''US0000000002'')],
                updates = demoLog \<rparr>"

definition demoWorld :: "nat world" where
  "demoWorld = \<lparr> bucket = [DATA_FILE_NAME \<mapsto> JsonBody demoState], ticks = 0, events = [] \<rparr>"

text \<open>
  A parser for the bodies \<^verbatim>\<open>null\<close>, \<^verbatim>\<open>{}\<close> and \<^verbatim>\<open>[]\<close>, the two-field row of
  scenario D, and a row with a sixth field.
\<close>

definition demoParseBare :: "string \<Rightarrow> nat jsvalue option" where
  "demoParseBare s =
     (if s = ''null'' then Some JNull
      else if s = ''{}'' then Some (JObj [])
      else if s = ''[]'' then Some (JArr [])
      else None)"

definition demoShortRow :: "nat jsvalue" where
  "demoShortRow = JArr [JStr ''AB'', JStr ''X'']"

definition demoLongRow :: "nat jsvalue" where
  "demoLongRow =
     JArr [JStr ''TCK'', JStr ''Short'', JStr ''Long name'', JStr ''US0000000001'',
           JStr ''ETF'', JStr ''extra'']"

text \<open>A snapshot that lists one ISIN twice, and the state a run persists for it.\<close>

definition demoDupRows :: "nat jsvalue list" where
  "demoDupRows = [demoRow ''US0000000001'', demoRow ''US0000000001'']"

definition demoDupNext :: "nat dataFile" where
  "demoDupNext =
     \<lparr> instruments = [createInstrument (demoRow ''US0000000001''),
                      createInstrument (demoRow ''US0000000001'')],
       updates = [demoUpdate,
         \<lparr> utype = ''removed'', dateTime = ''2018-06-01T00:00:00.000Z'',
           instrument = createInstrument (demoRow ''US0000000003'') \<rparr>,
         \<lparr> utype = ''added'', dateTime = ''2018-06-01T00:00:00.000Z'',
           instrument = createInstrument (demoRow ''US0000000001'') \<rparr>] \<rparr>"

text \<open>
  Collaborators as in the example, but the template engine fails; or the upstream
  body holds the two-field row; or the response is another one and rendering fails.
  A second parser that knows one body only.
\<close>

definition demoEnvNoRender :: "nat env" where
  "demoEnvNoRender = demoEnv \<lparr> ejs_render := (\<lambda>us. None) \<rparr>"

definition demoEnvShortRow :: "nat env" where
  "demoEnvShortRow = demoEnv \<lparr> json_parse := demoParse [demoShortRow] \<rparr>"

definition demoEnvLater :: "nat env" where
  "demoEnvLater = demoEnv \<lparr> http_response := Some ''other'', ejs_render := (\<lambda>us. None) \<rparr>"

definition demoParseBody :: "string \<Rightarrow> nat jsvalue option" where
  "demoParseBody s =
     (if s = ''body'' then Some (JObj [(''data'', JArr demoRows)]) else None)"

text \<open>The instruments and rows of the scenarios A to C of the specification.\<close>

definition specInstrument :: "string \<Rightarrow> nat instrument" where
  "specInstrument isin =
     \<lparr> ticker = JStr ''T'', shortName = JStr ''SN'', longName = JStr ''LN'',
       isinCode = JStr isin, type = JStr ''ETF'' \<rparr>"

definition specRow :: "string \<Rightarrow> nat jsvalue" where
  "specRow isin = JArr [JStr ''T'', JStr ''SN'', JStr ''LN'', JStr isin, JStr ''ETF'']"

section \<open>Lemmas on the loops, the sort and the difference\<close>

lemma pushUpdates_eq:
  "pushUpdates env ty is (ups, w) =
     (ups @ stamped env ty (ticks w) is, w \<lparr> ticks := ticks w + length is \<rparr>)"
  by (induction "is" arbitrary: ups w) simp_all

lemma length_stamped [simp]: "length (stamped env ty t is) = length is"
  by (induction "is" arbitrary: t) simp_all

lemma map_instrument_stamped [simp]: "map instrument (stamped env ty t is) = is"
  by (induction "is" arbitrary: t) simp_all

lemma map_utype_stamped [simp]: "map utype (stamped env ty t is) = replicate (length is) ty"
  by (induction "is" arbitrary: t) simp_all

lemma stamped_Nil_iff [simp]: "stamped env ty t is = [] \<longleftrightarrow> is = []"
  by (cases "is") simp_all

lemma set_insertSorted [simp]: "set (insertSorted c x xs) = insert x (set xs)"
  by (induction xs) auto

lemma set_array_sort [simp]: "set (array_sort c xs) = set xs"
  unfolding array_sort_def by (induction xs) auto

lemma length_insertSorted [simp]: "length (insertSorted c x xs) = Suc (length xs)"
  by (induction xs) auto

lemma length_array_sort [simp]: "length (array_sort c xs) = length xs"
  unfolding array_sort_def by (induction xs) auto

lemma mset_insertSorted [simp]: "mset (insertSorted c x xs) = add_mset x (mset xs)"
  by (induction xs) auto

lemma mset_array_sort [simp]: "mset (array_sort c xs) = mset xs"
  unfolding array_sort_def by (induction xs) auto

lemma compare_le_iff:
  "isString (isinCode a) \<Longrightarrow> isString (isinCode b) \<Longrightarrow>
     instrumentSortCompare a b \<le> 0 \<longleftrightarrow> isinKey a \<le> isinKey b"
  by (cases "isinCode a"; cases "isinCode b")
     (auto simp: instrumentSortCompare_def isinKey_def)

lemma insertSorted_insort_key:
  "isString (isinCode x) \<Longrightarrow> \<forall>y\<in>set ys. isString (isinCode y) \<Longrightarrow>
     insertSorted instrumentSortCompare x ys = insort_key isinKey x ys"
  by (induction ys) (auto simp: compare_le_iff)

lemma array_sort_sort_key:
  "stringISINs xs \<Longrightarrow> array_sort instrumentSortCompare xs = sort_key isinKey xs"
proof (induction xs)
  case Nil
  then show ?case by (simp add: array_sort_def)
next
  case (Cons x xs)
  then have "array_sort instrumentSortCompare xs = sort_key isinKey xs"
    by (simp add: stringISINs_def)
  moreover have "\<forall>y\<in>set (sort_key isinKey xs). isString (isinCode y)"
    using Cons.prems by (simp add: stringISINs_def list_all_iff)
  moreover have "isString (isinCode x)"
    using Cons.prems by (simp add: stringISINs_def)
  ultimately show ?case
    by (simp add: array_sort_def insertSorted_insort_key)
qed

lemma diff_refl: "\<forall>x\<in>set xs. eq x x \<Longrightarrow> diff xs xs eq = \<lparr> removed = [], added = [] \<rparr>"
  by (induction xs) simp_all

lemma diff_same_keys:
  "map f a = map f b \<Longrightarrow> \<forall>x y. eq x y \<longleftrightarrow> f x = f y \<Longrightarrow> diff a b eq = \<lparr> removed = [], added = [] \<rparr>"
  by (induction a arbitrary: b) auto

lemma length_filter_mono:
  "(\<And>z. z \<in> set xs \<Longrightarrow> P z \<Longrightarrow> Q z) \<Longrightarrow> length (filter P xs) \<le> length (filter Q xs)"
  by (induction xs) auto

lemma length_filter_strict:
  "(\<And>z. z \<in> set xs \<Longrightarrow> P z \<Longrightarrow> Q z) \<Longrightarrow> z \<in> set xs \<Longrightarrow> Q z \<Longrightarrow> \<not> P z
    \<Longrightarrow> length (filter P xs) < length (filter Q xs)"
proof (induction xs)
  case Nil
  then show ?case by simp
next
  case (Cons a xs)
  have mono: "length (filter P xs) \<le> length (filter Q xs)"
    using Cons.prems(1) by (intro length_filter_mono) auto
  show ?case
  proof (cases "z = a")
    case True
    with Cons.prems mono show ?thesis by auto
  next
    case False
    with Cons.prems have "z \<in> set xs" by simp
    with Cons.IH Cons.prems have "length (filter P xs) < length (filter Q xs)" by auto
    with Cons.prems(1) show ?thesis by auto
  qed
qed

lemma filter_notin_insert:
  "k \<notin> f ` set xs \<Longrightarrow> filter (\<lambda>z. f z \<notin> insert k S) xs = filter (\<lambda>z. f z \<notin> S) xs"
  by (induction xs) auto

lemma filter_neq_notin:
  "k \<notin> f ` set xs \<Longrightarrow> filter (\<lambda>z. f z \<noteq> k \<and> f z \<notin> S) xs = filter (\<lambda>z. f z \<notin> S) xs"
  by (induction xs) auto

lemma diff_sorted_distinct:
  fixes f :: "'a \<Rightarrow> 'k::linorder"
  assumes "sorted_wrt (<) (map f a)" and "sorted_wrt (<) (map f b)"
    and eq: "\<And>x y. eq x y \<longleftrightarrow> f x = f y"
  shows "diff a b eq = \<lparr> removed = filter (\<lambda>x. f x \<notin> f ` set b) a,
                          added = filter (\<lambda>y. f y \<notin> f ` set a) b \<rparr>"
  using assms(1,2)
proof (induction a arbitrary: b)
  case Nil
  then show ?case by simp
next
  case (Cons x a)
  note outerIH = Cons.IH
  have xa: "\<forall>z\<in>set a. f x < f z" and sa: "sorted_wrt (<) (map f a)"
    using Cons.prems(1) by auto
  from Cons.prems(2) show ?case
  proof (induction b)
    case Nil
    then show ?case by simp
  next
    case (Cons y b)
    have yb: "\<forall>z\<in>set b. f y < f z" and sb: "sorted_wrt (<) (map f b)"
      using Cons.prems by auto
    let ?del = "diff a (y # b) eq" and ?ins = "diff (x # a) b eq"
    have del: "?del = \<lparr> removed = filter (\<lambda>z. f z \<notin> f ` set (y # b)) a,
                         added = filter (\<lambda>z. f z \<notin> f ` set a) (y # b) \<rparr>"
      using outerIH [OF sa Cons.prems] .
    have ins: "?ins = \<lparr> removed = filter (\<lambda>z. f z \<notin> f ` set b) (x # a),
                         added = filter (\<lambda>z. f z \<notin> f ` set (x # a)) b \<rparr>"
      using Cons.IH [OF sb] .
    consider (eq) "f x = f y" | (lt) "f x < f y" | (gt) "f y < f x"
      by (metis linorder_less_linear)
    then show ?case
    proof cases
      case eq
      have "diff (x # a) (y # b) eq = diff a b eq"
        using eq by (simp add: assms(3))
      also have "\<dots> = \<lparr> removed = filter (\<lambda>z. f z \<notin> f ` set b) a,
                         added = filter (\<lambda>z. f z \<notin> f ` set a) b \<rparr>"
        using outerIH [OF sa sb] .
      also have "filter (\<lambda>z. f z \<notin> f ` set b) a = filter (\<lambda>z. f z \<notin> f ` set (y # b)) (x # a)"
      proof -
        have "f y \<notin> f ` set a" using eq xa by auto
        then show ?thesis using eq by (simp add: filter_neq_notin)
      qed
      also have "filter (\<lambda>z. f z \<notin> f ` set a) b = filter (\<lambda>z. f z \<notin> f ` set (x # a)) (y # b)"
      proof -
        have "f x \<notin> f ` set b" using eq yb by auto
        then show ?thesis using eq by (simp add: filter_neq_notin)
      qed
      finally show ?thesis .
    next
      case lt
      have xnb: "f x \<notin> f ` set (y # b)" using lt yb by auto
      have neq: "\<not> eq x y" using lt by (simp add: assms(3))
      have a2: "filter (\<lambda>z. f z \<notin> f ` set (x # a)) b = filter (\<lambda>z. f z \<notin> f ` set a) b"
        using xnb by (simp add: filter_neq_notin)
      have r2: "filter (\<lambda>z. f z \<notin> f ` set b) (x # a) = x # filter (\<lambda>z. f z \<notin> f ` set b) a"
        using xnb by auto
      have "length (filter (\<lambda>z. f z \<notin> f ` set (y # b)) a) \<le> length (filter (\<lambda>z. f z \<notin> f ` set b) a)"
        by (rule length_filter_mono) auto
      moreover have "length (filter (\<lambda>z. f z \<notin> f ` set a) (y # b)) \<le> Suc (length (filter (\<lambda>z. f z \<notin> f ` set a) b))"
        by simp
      ultimately have le: "length (removed ?del) + length (added ?del)
                          \<le> length (removed ?ins) + length (added ?ins)"
        unfolding del ins a2 r2 by simp
      have "diff (x # a) (y # b) eq = ?del \<lparr> removed := x # removed ?del \<rparr>"
        using neq le by (simp add: Let_def)
      also have "\<dots> = \<lparr> removed = x # filter (\<lambda>z. f z \<notin> f ` set (y # b)) a,
                         added = filter (\<lambda>z. f z \<notin> f ` set a) (y # b) \<rparr>"
        unfolding del by simp
      also have "x # filter (\<lambda>z. f z \<notin> f ` set (y # b)) a = filter (\<lambda>z. f z \<notin> f ` set (y # b)) (x # a)"
        using xnb by simp
      also have "filter (\<lambda>z. f z \<notin> f ` set a) (y # b) = filter (\<lambda>z. f z \<notin> f ` set (x # a)) (y # b)"
        using xnb filter_notin_insert [of "f x" f "y # b" "f ` set a"] by (simp del: filter.simps)
      finally show ?thesis .
    next
      case gt
      have yna: "f y \<notin> f ` set (x # a)" using gt xa by auto
      have neq: "\<not> eq x y" using gt by (simp add: assms(3))
      have r1: "filter (\<lambda>z. f z \<notin> f ` set (y # b)) a = filter (\<lambda>z. f z \<notin> f ` set b) a"
        using yna by (simp add: filter_neq_notin)
      have a1: "filter (\<lambda>z. f z \<notin> f ` set a) (y # b) = y # filter (\<lambda>z. f z \<notin> f ` set a) b"
        using yna by auto
      have tgt_r: "filter (\<lambda>z. f z \<notin> f ` set (y # b)) (x # a) = filter (\<lambda>z. f z \<notin> f ` set b) (x # a)"
        using yna filter_notin_insert [of "f y" f "x # a" "f ` set b"] by (simp del: filter.simps)
      have tgt_a: "filter (\<lambda>z. f z \<notin> f ` set (x # a)) (y # b) = y # filter (\<lambda>z. f z \<notin> f ` set (x # a)) b"
        using yna by auto
      show ?thesis
      proof (cases "f x \<in> f ` set b")
        case True
        then obtain z where z: "z \<in> set b" "f z = f x" by auto
        have "f x \<notin> f ` set a" using xa by auto
        then have "length (filter (\<lambda>z. f z \<notin> f ` set (x # a)) b) < length (filter (\<lambda>z. f z \<notin> f ` set a) b)"
          using z by (intro length_filter_strict [where z = z]) auto
        moreover have "filter (\<lambda>z. f z \<notin> f ` set b) (x # a) = filter (\<lambda>z. f z \<notin> f ` set b) a"
          using True by simp
        ultimately have "\<not> length (removed ?del) + length (added ?del)
                          \<le> length (removed ?ins) + length (added ?ins)"
          unfolding del ins r1 a1 by simp
        then have "diff (x # a) (y # b) eq = ?ins \<lparr> added := y # added ?ins \<rparr>"
          using neq by (simp add: Let_def)
        then show ?thesis
          unfolding ins tgt_r tgt_a by simp
      next
        case False
        then have r2: "filter (\<lambda>z. f z \<notin> f ` set b) (x # a) = x # filter (\<lambda>z. f z \<notin> f ` set b) a"
          by simp
        have a2: "filter (\<lambda>z. f z \<notin> f ` set (x # a)) b = filter (\<lambda>z. f z \<notin> f ` set a) b"
          using False by (simp add: filter_neq_notin)
        have "length (removed ?del) + length (added ?del)
                \<le> length (removed ?ins) + length (added ?ins)"
          unfolding del ins r1 a1 r2 a2 by simp
        then have "diff (x # a) (y # b) eq = ?del \<lparr> removed := x # removed ?del \<rparr>"
          using neq by (simp add: Let_def)
        then show ?thesis
          unfolding del tgt_r tgt_a r1 a1 r2 a2 by simp
      qed
    qed
  qed
qed

lemma save_JsonBody:
  "saveDataFileToS3 env rows (JsonBody df) w =
     (let new = array_sort instrumentSortCompare (map createInstrument rows);
          recs = appended env (ticks w) (array_sort instrumentSortCompare (instruments df)) new;
          w2 = w \<lparr> ticks := ticks w + length recs \<rparr>
      in case s3_put_fault env DATA_FILE_NAME of
           Some code \<Rightarrow> (Inl (S3Error code), w2)
         | None \<Rightarrow>
            (Inr (updates df @ recs),
             w2 \<lparr> bucket := (bucket w)(DATA_FILE_NAME \<mapsto>
                     JsonBody \<lparr> instruments = new, updates = updates df @ recs \<rparr>),
                  events := events w @ [PutObject DATA_FILE_NAME] \<rparr>))"
  by (simp add: saveDataFileToS3_def appended_def putObject_def pushUpdates_eq Let_def
      split: option.split)

lemma save_HtmlBody: "saveDataFileToS3 env rows (HtmlBody s) w = (Inl SyntaxError, w)"
  by (simp add: saveDataFileToS3_def)

lemma save_success:
  assumes "fst (saveDataFileToS3 env rows body w) = Inr ups"
  obtains df where "body = JsonBody df" and "s3_put_fault env DATA_FILE_NAME = None"
    and "ups = updates df
           @ appended env (ticks w) (array_sort instrumentSortCompare (instruments df))
               (array_sort instrumentSortCompare (map createInstrument rows))"
    and "bucket (snd (saveDataFileToS3 env rows body w)) DATA_FILE_NAME =
           Some (JsonBody \<lparr> instruments = array_sort instrumentSortCompare (map createInstrument rows),
                            updates = ups \<rparr>)"
proof (cases body)
  case (JsonBody df)
  with assms that [of df] show thesis
    by (auto simp: save_JsonBody Let_def split: option.splits)
next
  case (HtmlBody s)
  with assms show thesis by (simp add: save_HtmlBody)
qed

lemma diff_cong:
  "(\<And>x y. x \<in> set a \<Longrightarrow> y \<in> set b \<Longrightarrow> eq x y = eq' x y) \<Longrightarrow> diff a b eq = diff a b eq'"
proof (induction a b eq rule: diff.induct)
  case (3 x a y b eq)
  have "diff a b eq = diff a b eq'" if "eq x y"
    using 3 that by auto
  moreover have "diff a (y # b) eq = diff a (y # b) eq'" if "\<not> eq x y"
    using 3 that by auto
  moreover have "diff (x # a) b eq = diff (x # a) b eq'" if "\<not> eq x y"
    using 3 that by auto
  moreover have "eq x y = eq' x y" using 3 by auto
  ultimately show ?case by (auto simp: Let_def)
qed simp_all

lemma isinCode_isinKey: "isString (isinCode a) \<Longrightarrow> isinCode a = JStr (isinKey a)"
  by (cases "isinCode a") (simp_all add: isinKey_def)

lemma strict_eq_isinKey:
  "isString (isinCode a) \<Longrightarrow> isString (isinCode b) \<Longrightarrow>
     js_strict_eq (isinCode a) (isinCode b) \<longleftrightarrow> isinKey a = isinKey b"
  by (cases "isinCode a"; cases "isinCode b") (simp_all add: isinKey_def)

lemma js_lt_isinKey:
  "isString (isinCode a) \<Longrightarrow> isString (isinCode b) \<Longrightarrow>
     js_lt (isinCode a) (isinCode b) \<longleftrightarrow> isinKey a < isinKey b"
  by (cases "isinCode a"; cases "isinCode b") (simp_all add: isinKey_def)

lemma js_gt_isinKey:
  "isString (isinCode a) \<Longrightarrow> isString (isinCode b) \<Longrightarrow>
     js_gt (isinCode a) (isinCode b) \<longleftrightarrow> isinKey b < isinKey a"
  by (cases "isinCode a"; cases "isinCode b") (simp_all add: isinKey_def)

lemma map_isinCode_isinKey:
  "stringISINs xs \<Longrightarrow> map isinCode xs = map (JStr \<circ> isinKey) xs"
proof (induction xs)
  case Nil
  show ?case by simp
next
  case (Cons x xs)
  then have "isinCode x = JStr (isinKey x)"
    by (intro isinCode_isinKey) (simp add: stringISINs_def)
  with Cons show ?case by (simp add: stringISINs_def)
qed

lemma distinct_isinKey:
  "stringISINs xs \<Longrightarrow> distinct (map isinCode xs) \<longleftrightarrow> distinct (map isinKey xs)"
proof -
  assume "stringISINs xs"
  then have "map isinCode xs = map JStr (map isinKey xs)"
    by (simp add: map_isinCode_isinKey)
  then show ?thesis
    by (simp only: distinct_map [of JStr]) (auto simp: inj_on_def)
qed

lemma stringISINs_array_sort [simp]:
  "stringISINs (array_sort c xs) = stringISINs xs"
  by (simp add: stringISINs_def list_all_iff)

lemma array_sort_idem:
  "stringISINs xs \<Longrightarrow>
     array_sort instrumentSortCompare (array_sort instrumentSortCompare xs)
       = array_sort instrumentSortCompare xs"
proof -
  assume s: "stringISINs xs"
  then have "stringISINs (sort_key isinKey xs)"
    by (simp add: stringISINs_def list_all_iff)
  then show ?thesis
    using s by (simp add: array_sort_sort_key sort_key_id_if_sorted)
qed

lemma appended_same:
  "stringISINs xs \<Longrightarrow> appended env t xs xs = []"
proof -
  assume "stringISINs xs"
  then have "\<forall>x\<in>set xs. js_strict_eq (isinCode x) (isinCode x)"
    by (auto simp: stringISINs_def list_all_iff strict_eq_isinKey)
  then show ?thesis
    by (simp add: appended_def diff_refl)
qed

lemma isinCode_mem_iff:
  assumes "stringISINs b" "isString (isinCode x)"
  shows "isinCode x \<in> isinCode ` set b \<longleftrightarrow> isinKey x \<in> isinKey ` set b"
proof
  assume "isinCode x \<in> isinCode ` set b"
  then obtain y where "y \<in> set b" "isinCode x = isinCode y" by auto
  then show "isinKey x \<in> isinKey ` set b" by (auto simp: isinKey_def)
next
  assume "isinKey x \<in> isinKey ` set b"
  then obtain y where y: "y \<in> set b" "isinKey x = isinKey y" by auto
  then have "isString (isinCode y)"
    using assms(1) by (simp add: stringISINs_def list_all_iff)
  then have "isinCode y = JStr (isinKey y)" by (rule isinCode_isinKey)
  moreover have "isinCode x = JStr (isinKey x)" using assms(2) by (rule isinCode_isinKey)
  ultimately show "isinCode x \<in> isinCode ` set b" using y by force
qed

lemma diff_instruments:
  assumes "stringISINs a" "stringISINs b"
    and "sorted_wrt (<) (map isinKey a)" "sorted_wrt (<) (map isinKey b)"
  shows "diff a b (\<lambda>x y. js_strict_eq (isinCode x) (isinCode y)) =
           \<lparr> removed = filter (\<lambda>x. isinCode x \<notin> isinCode ` set b) a,
             added = filter (\<lambda>y. isinCode y \<notin> isinCode ` set a) b \<rparr>"
proof -
  have "diff a b (\<lambda>x y. js_strict_eq (isinCode x) (isinCode y))
          = diff a b (\<lambda>x y. isinKey x = isinKey y)"
    using assms(1,2)
    by (intro diff_cong) (auto simp: stringISINs_def list_all_iff strict_eq_isinKey)
  also have "\<dots> = \<lparr> removed = filter (\<lambda>x. isinKey x \<notin> isinKey ` set b) a,
                      added = filter (\<lambda>y. isinKey y \<notin> isinKey ` set a) b \<rparr>"
    using assms(3,4) by (intro diff_sorted_distinct) auto
  also have "filter (\<lambda>x. isinKey x \<notin> isinKey ` set b) a
               = filter (\<lambda>x. isinCode x \<notin> isinCode ` set b) a"
  proof (rule filter_cong [OF refl])
    fix x assume "x \<in> set a"
    then have "isString (isinCode x)" using assms(1) by (simp add: stringISINs_def list_all_iff)
    then show "(isinKey x \<notin> isinKey ` set b) = (isinCode x \<notin> isinCode ` set b)"
      using assms(2) by (simp add: isinCode_mem_iff)
  qed
  also have "filter (\<lambda>y. isinKey y \<notin> isinKey ` set a) b
               = filter (\<lambda>y. isinCode y \<notin> isinCode ` set a) b"
  proof (rule filter_cong [OF refl])
    fix y assume "y \<in> set b"
    then have "isString (isinCode y)" using assms(2) by (simp add: stringISINs_def list_all_iff)
    then show "(isinKey y \<notin> isinKey ` set a) = (isinCode y \<notin> isinCode ` set a)"
      using assms(1) by (simp add: isinCode_mem_iff)
  qed
  finally show ?thesis .
qed

lemma distinct_map_insort_key:
  "distinct (map f (insort_key f x xs)) \<longleftrightarrow> f x \<notin> f ` set xs \<and> distinct (map f xs)"
  by (induction xs) (auto simp: set_insort_key)

lemma distinct_map_sort_key: "distinct (map f (sort_key f xs)) \<longleftrightarrow> distinct (map f xs)"
  by (induction xs) (simp_all add: distinct_map_insort_key)

lemma sorted_strict_array_sort:
  assumes "stringISINs xs" "distinct (map isinCode xs)"
  shows "sorted_wrt (<) (map isinKey (array_sort instrumentSortCompare xs))"
proof -
  have "distinct (map isinKey (sort_key isinKey xs))"
    using assms by (simp add: distinct_isinKey distinct_map_sort_key)
  moreover have "sorted (map isinKey (sort_key isinKey xs))" by simp
  ultimately show ?thesis
    using assms(1) by (simp add: array_sort_sort_key strict_sorted_iff)
qed

lemma utype_stamped: "u \<in> set (stamped env ty t is) \<Longrightarrow> utype u = ty"
  by (induction "is" arbitrary: t) auto

lemma instrument_set_stamped: "instrument ` set (stamped env ty t is) = set is"
  using map_instrument_stamped [of env ty t "is"] by (metis list.set_map)

lemma sorted_lt_filter_array_sort:
  assumes "stringISINs xs" "distinct (map isinCode xs)"
  shows "sorted_wrt (\<lambda>a b. js_lt (isinCode a) (isinCode b))
           (filter P (array_sort instrumentSortCompare xs))"
proof -
  let ?s = "array_sort instrumentSortCompare xs"
  have "sorted_wrt (<) (map isinKey ?s)"
    using assms by (rule sorted_strict_array_sort)
  then have "sorted_wrt (\<lambda>a b. isinKey a < isinKey b) ?s"
    by (simp add: sorted_wrt_map)
  then have "sorted_wrt (\<lambda>a b. js_lt (isinCode a) (isinCode b)) ?s"
  proof (rule sorted_wrt_mono_rel [rotated])
    fix a b assume "a \<in> set ?s" "b \<in> set ?s" "isinKey a < isinKey b"
    then show "js_lt (isinCode a) (isinCode b)"
      using assms(1) by (auto simp: stringISINs_def list_all_iff js_lt_isinKey)
  qed
  then show ?thesis by (rule sorted_wrt_filter)
qed

lemma appended_sorted:
  assumes "stringISINs P" "stringISINs N"
    and "distinct (map isinCode P)" "distinct (map isinCode N)"
  shows "appended env t (array_sort instrumentSortCompare P) (array_sort instrumentSortCompare N) =
           stamped env ''removed'' t
             (filter (\<lambda>x. isinCode x \<notin> isinCode ` set N) (array_sort instrumentSortCompare P))
           @ stamped env ''added''
               (t + length (filter (\<lambda>x. isinCode x \<notin> isinCode ` set N)
                              (array_sort instrumentSortCompare P)))
               (filter (\<lambda>y. isinCode y \<notin> isinCode ` set P) (array_sort instrumentSortCompare N))"
proof -
  have "diff (array_sort instrumentSortCompare P) (array_sort instrumentSortCompare N)
          (\<lambda>x y. js_strict_eq (isinCode x) (isinCode y)) =
        \<lparr> removed = filter (\<lambda>x. isinCode x \<notin> isinCode ` set N) (array_sort instrumentSortCompare P),
          added = filter (\<lambda>y. isinCode y \<notin> isinCode ` set P) (array_sort instrumentSortCompare N) \<rparr>"
    using diff_instruments [of "array_sort instrumentSortCompare P" "array_sort instrumentSortCompare N"]
      assms sorted_strict_array_sort [of P] sorted_strict_array_sort [of N]
    by simp
  then show ?thesis
    by (simp add: appended_def Let_def)
qed

section \<open>Lemmas on the validator\<close>

lemma regex_isin: "regex_match ISIN_CODE_REGEX s \<longleftrightarrow> isinPattern s"
proof (cases "length s = 12")
  case True
  then have "take (Suc 0) (drop 11 s) = drop 11 s" by simp
  with True show ?thesis
    by (simp add: ISIN_CODE_REGEX_def isinPattern_def)
next
  case False
  then show ?thesis
    by (auto simp: ISIN_CODE_REGEX_def isinPattern_def)
qed

lemma not_between:
  "(\<not> isString v \<or> js_length v < lo \<or> js_length v > hi) = (\<not> strBetween lo hi v)"
  by (cases v) auto

lemma not_between0: "(\<not> isString v \<or> js_length v > hi) = (\<not> strBetween 0 hi v)"
  by (cases v) auto

lemma not_isin: "(\<not> isString v \<or> \<not> js_match v ISIN_CODE_REGEX) = (\<not> isinField v)"
  by (cases v) (simp_all add: regex_isin)

lemma checkInstrument_alt:
  "checkInstrument i =
     (if \<not> strBetween 1 12 (ticker i)
      then Inl (InstrumentError ''invalid instrument ticker'' (ticker i))
      else if \<not> strBetween 2 24 (shortName i)
      then Inl (InstrumentError ''invalid instrument short name'' (shortName i))
      else if \<not> strBetween 2 64 (longName i)
      then Inl (InstrumentError ''invalid instrument long name'' (longName i))
      else if \<not> isinField (isinCode i)
      then Inl (InstrumentError ''invalid instrument ISIN code'' (isinCode i))
      else if \<not> strBetween 0 24 (type i)
      then Inl (InstrumentError ''invalid instrument type'' (type i))
      else Inr ())"
  unfolding checkInstrument_def not_between not_between0 not_isin ..

lemma upt_5: "[0..<5] = [0, 1, 2, 3, 4]"
  by (simp add: upt_rec)

lemma fields_all:
  "list_all (\<lambda>i. fieldOk i (js_index r i)) [0..<5] \<longleftrightarrow>
     strBetween 1 12 (js_index r 0) \<and> strBetween 2 24 (js_index r 1)
     \<and> strBetween 2 64 (js_index r 2) \<and> isinField (js_index r 3)
     \<and> strBetween 0 24 (js_index r 4)"
  by (simp add: upt_5 fieldOk_def)

lemma fields_ex:
  "list_ex (\<lambda>i. \<not> fieldOk i (js_index r i) \<and> e = js_index r i) [0..<5] \<longleftrightarrow>
     (\<not> strBetween 1 12 (js_index r 0) \<and> e = js_index r 0)
     \<or> (\<not> strBetween 2 24 (js_index r 1) \<and> e = js_index r 1)
     \<or> (\<not> strBetween 2 64 (js_index r 2) \<and> e = js_index r 2)
     \<or> (\<not> isinField (js_index r 3) \<and> e = js_index r 3)
     \<or> (\<not> strBetween 0 24 (js_index r 4) \<and> e = js_index r 4)"
  by (simp add: upt_5 fieldOk_def)

lemma checkInstrument_ok:
  "list_all (\<lambda>i. fieldOk i (js_index r i)) [0..<5] \<Longrightarrow> checkInstrument (createInstrument r) = Inr ()"
  unfolding fields_all checkInstrument_alt by (simp add: createInstrument_def)

lemma checkInstrument_bad:
  "\<not> list_all (\<lambda>i. fieldOk i (js_index r i)) [0..<5] \<Longrightarrow>
     \<exists>m e. checkInstrument (createInstrument r) = Inl (InstrumentError m e)
       \<and> list_ex (\<lambda>i. \<not> fieldOk i (js_index r i) \<and> e = js_index r i) [0..<5]"
  unfolding fields_all fields_ex checkInstrument_alt by (auto simp: createInstrument_def)

lemma validateRow_ok: "rowOk r \<Longrightarrow> validateRow r = Inr ()"
  by (simp add: rowOk_def rowShapeOk_def validateRow_def checkInstrument_ok)

lemma validateRow_bad:
  assumes "\<not> rowOk r"
  shows "\<exists>m e. validateRow r = Inl (InstrumentError m e) \<and> offendingIn [r] e"
proof (cases "rowShapeOk r")
  case True
  with assms have "\<not> list_all (\<lambda>i. fieldOk i (js_index r i)) [0..<5]"
    by (simp add: rowOk_def)
  from checkInstrument_bad [OF this] True show ?thesis
    by (auto simp: validateRow_def rowShapeOk_def offendingIn_def)
next
  case False
  then show ?thesis
    by (auto simp: validateRow_def rowShapeOk_def offendingIn_def)
qed

lemma offendingIn_Cons:
  "offendingIn (r # rows) e \<longleftrightarrow> offendingIn [r] e \<or> offendingIn rows e"
  by (simp add: offendingIn_def)

lemma forEach_validateRow_ok: "list_all rowOk rows \<Longrightarrow> forEach validateRow rows = Inr ()"
  by (induction rows) (simp_all add: validateRow_ok)

lemma forEach_validateRow_bad:
  "\<not> list_all rowOk rows \<Longrightarrow>
     \<exists>m e. forEach validateRow rows = Inl (InstrumentError m e) \<and> offendingIn rows e"
proof (induction rows)
  case Nil
  then show ?case by simp
next
  case (Cons r rows)
  show ?case
  proof (cases "rowOk r")
    case True
    with Cons.prems have "\<not> list_all rowOk rows" by simp
    from Cons.IH [OF this] obtain m e
      where "forEach validateRow rows = Inl (InstrumentError m e)" "offendingIn rows e"
      by blast
    with True show ?thesis
      by (simp add: validateRow_ok offendingIn_Cons [of r rows])
  next
    case False
    from validateRow_bad [OF this] obtain m e
      where "validateRow r = Inl (InstrumentError m e)" "offendingIn [r] e"
      by blast
    then show ?thesis
      by (simp add: offendingIn_Cons [of r rows])
  qed
qed

lemma get_data_value: "v \<noteq> JNull \<Longrightarrow> v \<noteq> JUndefined \<Longrightarrow> get_data v = Inr (dataField v)"
  by (cases v) simp_all

lemma data_test: "(\<not> isArray d \<or> js_length d = 0) = (\<not> dataOk d)"
  by (cases d) (auto simp: dataOk_def)

lemma doParseAndValidation_value:
  assumes "JSON_parse body = Some v" "v \<noteq> JNull" "v \<noteq> JUndefined"
  shows "doParseAndValidation JSON_parse body =
           (if \<not> dataOk (dataField v) then Inl (InstrumentError ''invalid data'' (dataField v))
            else case forEach validateRow (elements (dataField v)) of
                   Inl e \<Rightarrow> Inl e
                 | Inr u \<Rightarrow> Inr (elements (dataField v)))"
  unfolding doParseAndValidation_def data_test
  using assms by (simp add: get_data_value Let_def)

lemma validateRow_part_000_eq:
  "\<not> (isArray r \<and> (js_length r = 6 \<or> js_length r = 7)) \<Longrightarrow>
     validateRow_part_000 r = validateRow r"
  by (auto simp: validateRow_part_000_def validateRow_def)

lemma validateRow_part_000_Inr: "validateRow_part_000 r = Inr u \<Longrightarrow> validateRow r = Inr u"
  by (auto simp: validateRow_part_000_def validateRow_def split: if_splits)

lemma forEach_part_000_eq:
  "list_all (\<lambda>r. \<not> (isArray r \<and> (js_length r = 6 \<or> js_length r = 7))) rows \<Longrightarrow>
     forEach validateRow_part_000 rows = forEach validateRow rows"
  by (induction rows) (simp_all add: validateRow_part_000_eq split: sum.split)

lemma forEach_part_000_Inr:
  "forEach validateRow_part_000 rows = Inr u \<Longrightarrow> forEach validateRow rows = Inr u"
proof (induction rows)
  case Nil
  then show ?case by simp
next
  case (Cons r rows)
  then show ?case
    by (cases "validateRow_part_000 r") (auto dest: validateRow_part_000_Inr)
qed

text \<open>
  What the validator hands on: every row is well-formed, so the instruments made of
  the selected rows carry string ISINs. This is the hypothesis of the statements on
  \<^verbatim>\<open>saveDataFileToS3\<close> below.
\<close>

lemma forEach_validateRow_Inr:
  "forEach validateRow rows = Inr u \<Longrightarrow> list_all rowOk rows"
  using forEach_validateRow_bad [of rows] by (cases "list_all rowOk rows") auto

lemma rowOk_isString: "rowOk r \<Longrightarrow> isString (isinCode (createInstrument r))"
proof -
  assume "rowOk r"
  then have "isinField (js_index r 3)"
    by (simp add: rowOk_def fields_all)
  then show ?thesis
    by (cases "js_index r 3") (simp_all add: createInstrument_def)
qed

lemma validated_rows_ok:
  assumes "doParseAndValidation JSON_parse body = Inr rows"
  shows "list_all rowOk rows"
proof -
  from assms obtain v d where "forEach validateRow (elements d) = Inr ()" "rows = elements d"
    by (auto simp: doParseAndValidation_def Let_def
        split: option.splits sum.splits if_splits)
  then show ?thesis by (simp add: forEach_validateRow_Inr)
qed

lemma validated_stringISINs:
  assumes "doParseAndValidation JSON_parse body = Inr rows"
  shows "stringISINs (map createInstrument (selectInstruments rows))"
  using validated_rows_ok [OF assms]
  by (auto simp: stringISINs_def list_all_iff selectInstruments_def rowOk_isString)

text \<open>The variant of src/unnamed/part_000 rejects every body with a row of six or seven fields.\<close>

lemma forEach_part_000_long:
  "list_ex (\<lambda>r. isArray r \<and> (js_length r = 6 \<or> js_length r = 7)) rows \<Longrightarrow>
     isl (forEach validateRow_part_000 rows)"
proof (induction rows)
  case Nil
  then show ?case by simp
next
  case (Cons r rows)
  show ?case
  proof (cases "validateRow_part_000 r")
    case (Inl e)
    then show ?thesis by simp
  next
    case (Inr u)
    then have "\<not> (isArray r \<and> (js_length r = 6 \<or> js_length r = 7))"
      by (auto simp: validateRow_part_000_def split: if_splits)
    with Cons Inr show ?thesis by simp
  qed
qed

lemma part_000_rejects_long:
  assumes "JSON_parse body = Some v"
    and "list_ex (\<lambda>r. isArray r \<and> (js_length r = 6 \<or> js_length r = 7))
           (elements (dataField v))"
  shows "isl (doParseAndValidation_part_000 JSON_parse body)"
proof -
  have "isl (forEach validateRow_part_000 (elements (dataField v)))"
    using assms(2) by (rule forEach_part_000_long)
  moreover have "get_data v = Inl TypeError \<or> get_data v = Inr (dataField v)"
    by (cases v) simp_all
  ultimately show ?thesis
    using assms(1)
    by (auto simp: doParseAndValidation_part_000_def Let_def split: sum.splits)
qed

section \<open>Lemmas on the handler and the clock\<close>

lemma save_ok_effect:
  assumes "fst (saveDataFileToS3 env rows b w) = Inr ups"
  shows "events (snd (saveDataFileToS3 env rows b w)) = events w @ [PutObject DATA_FILE_NAME]"
    and "\<exists>df'. bucket (snd (saveDataFileToS3 env rows b w)) DATA_FILE_NAME = Some (JsonBody df')
               \<and> updates df' = ups
               \<and> instruments df' = array_sort instrumentSortCompare (map createInstrument rows)"
proof -
  from assms obtain df where b: "b = JsonBody df" and put: "s3_put_fault env DATA_FILE_NAME = None"
    and bk: "bucket (snd (saveDataFileToS3 env rows b w)) DATA_FILE_NAME =
           Some (JsonBody \<lparr> instruments = array_sort instrumentSortCompare (map createInstrument rows),
                            updates = ups \<rparr>)"
    by (rule save_success)
  show "events (snd (saveDataFileToS3 env rows b w)) = events w @ [PutObject DATA_FILE_NAME]"
    unfolding b using put by (simp add: save_JsonBody Let_def)
  show "\<exists>df'. bucket (snd (saveDataFileToS3 env rows b w)) DATA_FILE_NAME = Some (JsonBody df')
               \<and> updates df' = ups
               \<and> instruments df' = array_sort instrumentSortCompare (map createInstrument rows)"
    using bk by simp
qed

lemma save_fail_effect:
  assumes "fst (saveDataFileToS3 env rows b w) = Inl e"
  shows "events (snd (saveDataFileToS3 env rows b w)) = events w"
    and "bucket (snd (saveDataFileToS3 env rows b w)) = bucket w"
  using assms
  by (cases b; auto simp: save_JsonBody save_HtmlBody Let_def split: option.splits)+

lemma Handler_fetch_error:
  "getInstrumentsData env = Inl e \<Longrightarrow> Handler env w = (Inl e, w)"
  by (simp add: Handler_def)

lemma Handler_validation_error:
  "getInstrumentsData env = Inr body \<Longrightarrow> doParseAndValidation (json_parse env) body = Inl e
    \<Longrightarrow> Handler env w = (Inl e, w)"
  by (simp add: Handler_def)

lemma Handler_reconcile:
  assumes "getInstrumentsData env = Inr body"
    and "doParseAndValidation (json_parse env) body = Inr validated"
    and "doesDataFileExist env w = Inr True"
    and "fst (readDataFileFromS3 env w) = Inr (Some b)"
  shows "Handler env w =
     (case saveDataFileToS3 env (selectInstruments validated) b w of
        (Inl e, w2) \<Rightarrow> (Inl e, w2)
      | (Inr ups, w2) \<Rightarrow>
         (case renderHtml env (presented env ups) w2 of
            (Inl e, w3) \<Rightarrow> (Inl e, w3)
          | (Inr html, w3) \<Rightarrow>
             (case uploadInstrumentUpdatesToS3 env html w3 of
                (Inl e, w4) \<Rightarrow> (Inl e, w4)
              | (Inr r, w4) \<Rightarrow> (Inr ''instrument updates generated'', w4))))"
  using assms
  by (simp add: Handler_def readDataFileFromS3_def presented_def Let_def split: prod.split sum.split)

lemma Handler_after_save_fail:
  assumes "getInstrumentsData env = Inr body"
    and "doParseAndValidation (json_parse env) body = Inr validated"
    and "doesDataFileExist env w = Inr True"
    and "fst (readDataFileFromS3 env w) = Inr (Some b)"
    and "fst (saveDataFileToS3 env (selectInstruments validated) b w) = Inl e"
  shows "Handler env w = (Inl e, snd (saveDataFileToS3 env (selectInstruments validated) b w))"
  using assms(5) unfolding Handler_reconcile [OF assms(1-4)]
  by (cases "saveDataFileToS3 env (selectInstruments validated) b w") auto

lemma Handler_after_save_ok:
  assumes "getInstrumentsData env = Inr body"
    and "doParseAndValidation (json_parse env) body = Inr validated"
    and "doesDataFileExist env w = Inr True"
    and "fst (readDataFileFromS3 env w) = Inr (Some b)"
    and ok: "fst (saveDataFileToS3 env (selectInstruments validated) b w) = Inr ups"
  shows "\<exists>rest. events (snd (Handler env w))
                  = events (snd (saveDataFileToS3 env (selectInstruments validated) b w))
                    @ RenderFile # rest"
    and "bucket (snd (Handler env w)) DATA_FILE_NAME
           = bucket (snd (saveDataFileToS3 env (selectInstruments validated) b w)) DATA_FILE_NAME"
    and "ejs_render env (presented env ups) = None \<Longrightarrow> \<exists>m. fst (Handler env w) = Inl (EjsError m)"
proof -
  obtain w2 where s: "saveDataFileToS3 env (selectInstruments validated) b w = (Inr ups, w2)"
    using ok by (cases "saveDataFileToS3 env (selectInstruments validated) b w") auto
  have H: "Handler env w =
         (case renderHtml env (presented env ups) w2 of
            (Inl e, w3) \<Rightarrow> (Inl e, w3)
          | (Inr html, w3) \<Rightarrow>
             (case uploadInstrumentUpdatesToS3 env html w3 of
                (Inl e, w4) \<Rightarrow> (Inl e, w4)
              | (Inr r, w4) \<Rightarrow> (Inr ''instrument updates generated'', w4)))"
    unfolding Handler_reconcile [OF assms(1-4)] s by simp
  have neq: "''instrument-updates.html'' \<noteq> DATA_FILE_NAME"
    by (simp add: DATA_FILE_NAME_def)
  show "\<exists>rest. events (snd (Handler env w))
                  = events (snd (saveDataFileToS3 env (selectInstruments validated) b w))
                    @ RenderFile # rest"
    unfolding H s
    by (auto simp: renderHtml_def uploadInstrumentUpdatesToS3_def putObject_def
        split: option.splits)
  show "bucket (snd (Handler env w)) DATA_FILE_NAME
           = bucket (snd (saveDataFileToS3 env (selectInstruments validated) b w)) DATA_FILE_NAME"
    unfolding H s using neq
    by (auto simp: renderHtml_def uploadInstrumentUpdatesToS3_def putObject_def
        split: option.splits)
  show "\<exists>m. fst (Handler env w) = Inl (EjsError m)" if "ejs_render env (presented env ups) = None"
    unfolding H using that by (simp add: renderHtml_def)
qed

lemma stamped_clock_cong:
  "(\<And>k. clock env1 (t1 + k) = clock env2 (t2 + k)) \<Longrightarrow>
     stamped env1 ty t1 xs = stamped env2 ty t2 xs"
proof (induction xs arbitrary: t1 t2)
  case Nil
  show ?case by simp
next
  case (Cons x xs)
  have "clock env1 t1 = clock env2 t2" using Cons.prems [of 0] by simp
  moreover have "stamped env1 ty (Suc t1) xs = stamped env2 ty (Suc t2) xs"
    using Cons.prems [of "Suc k" for k] by (intro Cons.IH) simp
  ultimately show ?case by simp
qed

lemma appended_clock_cong:
  assumes "\<And>k. clock env1 (t1 + k) = clock env2 (t2 + k)"
  shows "appended env1 t1 old new = appended env2 t2 old new"
proof -
  let ?d = "diff old new (\<lambda>a b. js_strict_eq (isinCode a) (isinCode b))"
  have "stamped env1 ''removed'' t1 (removed ?d) = stamped env2 ''removed'' t2 (removed ?d)"
    using assms by (rule stamped_clock_cong)
  moreover have "stamped env1 ''added'' (t1 + length (removed ?d)) (added ?d)
                   = stamped env2 ''added'' (t2 + length (removed ?d)) (added ?d)"
    using assms [of "length (removed ?d) + k" for k]
    by (intro stamped_clock_cong) (simp add: add.assoc)
  ultimately show ?thesis by (simp add: appended_def Let_def)
qed

section \<open>Facts about the example data\<close>

lemma demo_first: "fst (saveDataFileToS3 demoEnv demoRows (JsonBody demoState) demoWorld) = Inr demoLog"
  by code_simp

lemma demo_state:
  "bucket (snd (saveDataFileToS3 demoEnv demoRows (JsonBody demoState) demoWorld)) DATA_FILE_NAME
     = Some (JsonBody demoNext)"
  by code_simp

lemma demo_strs: "stringISINs (map createInstrument demoRows)"
  by code_simp

lemma demo_strP: "stringISINs (instruments demoState)" by code_simp
lemma demo_dP: "distinct (map isinCode (instruments demoState))" by code_simp
lemma demo_dN: "distinct (map isinCode (map createInstrument demoRows))" by code_simp

lemma demoShort_bad: "\<not> bodyOk (JObj [(''data'', JArr [demoShortRow])])"
  by code_simp

text \<open>Scenarios D and E of the specification.\<close>

lemma scenario_D:
  "doParseAndValidation (demoParse [demoShortRow]) ''body''
     = Inl (InstrumentError ''invalid instrument row'' demoShortRow)"
  by code_simp

lemma scenario_E:
  "doParseAndValidation
     (demoParse [JArr [JStr ''TCK'', JStr ''Short'', JStr ''Long name'', JStr ''12AB34567890'',
                       JStr ''ETF'']]) ''body''
     = Inl (InstrumentError ''invalid instrument ISIN code'' (JStr ''12AB34567890''))"
  by code_simp

text \<open>
  Scenario A (bootstrap), B (addition only) and C (removal only) of the specification;
  the list returned in B and C is the whole log, here the one new record.
\<close>

lemma scenario_A:
  "bucket (snd (initDataFileToS3 demoEnv [specRow ''US0002'', specRow ''US0001'']
                  (demoWorld \<lparr> bucket := Map.empty \<rparr>))) DATA_FILE_NAME
     = Some (JsonBody \<lparr> instruments = [specInstrument ''US0001'', specInstrument ''US0002''],
                        updates = [] \<rparr>)
   \<and> fst (initDataFileToS3 demoEnv [specRow ''US0002'', specRow ''US0001'']
                  (demoWorld \<lparr> bucket := Map.empty \<rparr>)) = Inr None"
  by code_simp

lemma scenario_B:
  "fst (saveDataFileToS3 demoEnv [specRow ''US0001'', specRow ''US0002'']
          (JsonBody \<lparr> instruments = [specInstrument ''US0001''], updates = [] \<rparr>) demoWorld)
     = Inr [\<lparr> utype = ''added'', dateTime = ''2018-06-01T00:00:00.000Z'',
              instrument = specInstrument ''US0002'' \<rparr>]"
  by code_simp

lemma scenario_C:
  "fst (saveDataFileToS3 demoEnv [specRow ''US0001'']
          (JsonBody \<lparr> instruments = [specInstrument ''US0001'', specInstrument ''US0002''],
                      updates = [] \<rparr>) demoWorld)
     = Inr [\<lparr> utype = ''removed'', dateTime = ''2018-06-01T00:00:00.000Z'',
              instrument = specInstrument ''US0002'' \<rparr>]"
  by code_simp

section \<open>The claims\<close>

text \<open>
  C1 (idempotence of reconciliation). Take the state a successful run of
  \<^verbatim>\<open>saveDataFileToS3\<close> persisted for a selected sequence whose ISINs are strings (what
  the validator lets through). A second run with the same sequence against that state,
  whatever its collaborators and clock, reads the clock for no record, and when its
  write succeeds it returns and persists the very same update log and state: zero
  additional update records.
\<close>

theorem reconcile_idempotent:
  assumes first: "fst (saveDataFileToS3 env rows body w) = Inr ups"
    and state: "bucket (snd (saveDataFileToS3 env rows body w)) DATA_FILE_NAME = Some body1"
    and strs: "stringISINs (map createInstrument rows)"
  shows "\<exists>df1. body1 = JsonBody df1 \<and> updates df1 = ups
           \<and> ticks (snd (saveDataFileToS3 env2 rows body1 w2)) = ticks w2
           \<and> (s3_put_fault env2 DATA_FILE_NAME = None \<longrightarrow>
                fst (saveDataFileToS3 env2 rows body1 w2) = Inr (updates df1)
                \<and> bucket (snd (saveDataFileToS3 env2 rows body1 w2)) DATA_FILE_NAME
                    = Some (JsonBody df1))"
proof -
  let ?new = "array_sort instrumentSortCompare (map createInstrument rows)"
  from first obtain df where
    "bucket (snd (saveDataFileToS3 env rows body w)) DATA_FILE_NAME =
       Some (JsonBody \<lparr> instruments = ?new, updates = ups \<rparr>)"
    by (rule save_success)
  with state have b1: "body1 = JsonBody \<lparr> instruments = ?new, updates = ups \<rparr>" by simp
  have "appended env2 (ticks w2) (array_sort instrumentSortCompare ?new) ?new = []"
    using strs by (simp add: array_sort_idem appended_same)
  then show ?thesis
    unfolding b1 by (simp add: save_JsonBody Let_def split: option.split)
qed

theorem reconcile_idempotent_witness:
  "fst (saveDataFileToS3 demoEnv demoRows (JsonBody demoState) demoWorld) = Inr demoLog
   \<and> bucket (snd (saveDataFileToS3 demoEnv demoRows (JsonBody demoState) demoWorld))
        DATA_FILE_NAME = Some (JsonBody demoNext)
   \<and> stringISINs (map createInstrument demoRows)
   \<and> updates demoNext = demoLog
   \<and> ticks (snd (saveDataFileToS3 demoEnv demoRows (JsonBody demoNext) demoWorld))
        = ticks demoWorld
   \<and> fst (saveDataFileToS3 demoEnv demoRows (JsonBody demoNext) demoWorld) = Inr demoLog
   \<and> bucket (snd (saveDataFileToS3 demoEnv demoRows (JsonBody demoNext) demoWorld))
        DATA_FILE_NAME = Some (JsonBody demoNext)"
proof -
  have put: "s3_put_fault demoEnv DATA_FILE_NAME = None"
    by (simp add: demoEnv_def)
  show ?thesis
    using reconcile_idempotent [OF demo_first demo_state demo_strs, of demoEnv demoWorld] put
      demo_first demo_state demo_strs
    by auto
qed

text \<open>
  C2 (diff completeness). For a prior sequence and a new selected sequence whose ISINs
  are strings and have no duplicates, the records one successful run appends are
  \<^verbatim>\<open>removed\<close> or \<^verbatim>\<open>added\<close> ones; the ISINs of the \<^verbatim>\<open>removed\<close> records are exactly
  those of the prior sequence that the new one lacks, the ISINs of the \<^verbatim>\<open>added\<close>
  records exactly those of the new sequence that the prior one lacks (together the
  symmetric difference), and no record carries an ISIN present in both.
\<close>

theorem diff_complete:
  assumes ok: "fst (saveDataFileToS3 env rows (JsonBody df) w) = Inr ups"
    and strP: "stringISINs (instruments df)"
    and strN: "stringISINs (map createInstrument rows)"
    and dP: "distinct (map isinCode (instruments df))"
    and dN: "distinct (map isinCode (map createInstrument rows))"
  shows "\<exists>new. ups = updates df @ new
           \<and> isinCode ` instrument ` {u \<in> set new. utype u = ''removed''}
               = isinCode ` set (instruments df) - isinCode ` createInstrument ` set rows
           \<and> isinCode ` instrument ` {u \<in> set new. utype u = ''added''}
               = isinCode ` createInstrument ` set rows - isinCode ` set (instruments df)
           \<and> (\<forall>u\<in>set new. utype u = ''removed'' \<or> utype u = ''added'')
           \<and> (\<forall>u\<in>set new. \<not> (isinCode (instrument u) \<in> isinCode ` set (instruments df)
                                 \<and> isinCode (instrument u) \<in> isinCode ` createInstrument ` set rows))"
proof -
  let ?P = "instruments df" and ?N = "map createInstrument rows"
  let ?R = "filter (\<lambda>x. isinCode x \<notin> isinCode ` set ?N) (array_sort instrumentSortCompare ?P)"
  let ?A = "filter (\<lambda>y. isinCode y \<notin> isinCode ` set ?P) (array_sort instrumentSortCompare ?N)"
  let ?sr = "stamped env ''removed'' (ticks w) ?R"
  let ?sa = "stamped env ''added'' (ticks w + length ?R) ?A"
  from ok obtain df0 where "JsonBody df = JsonBody df0"
    and "ups = updates df0
           @ appended env (ticks w) (array_sort instrumentSortCompare (instruments df0))
               (array_sort instrumentSortCompare (map createInstrument rows))"
    by (rule save_success)
  then have ups: "ups = updates df @ (?sr @ ?sa)"
    using appended_sorted [OF strP strN dP dN, of env "ticks w"] by simp
  have rem: "{u \<in> set (?sr @ ?sa). utype u = ''removed''} = set ?sr"
    by (auto dest: utype_stamped)
  have add: "{u \<in> set (?sr @ ?sa). utype u = ''added''} = set ?sa"
    by (auto dest: utype_stamped)
  have 1: "isinCode ` instrument ` {u \<in> set (?sr @ ?sa). utype u = ''removed''}
             = isinCode ` set ?P - isinCode ` createInstrument ` set rows"
    unfolding rem instrument_set_stamped by auto
  have 2: "isinCode ` instrument ` {u \<in> set (?sr @ ?sa). utype u = ''added''}
             = isinCode ` createInstrument ` set rows - isinCode ` set ?P"
    unfolding add instrument_set_stamped by auto
  have 3: "\<forall>u\<in>set (?sr @ ?sa). utype u = ''removed'' \<or> utype u = ''added''"
    by (auto dest: utype_stamped)
  have 4: "\<forall>u\<in>set (?sr @ ?sa). \<not> (isinCode (instrument u) \<in> isinCode ` set ?P
                                 \<and> isinCode (instrument u) \<in> isinCode ` createInstrument ` set rows)"
  proof
    fix u assume "u \<in> set (?sr @ ?sa)"
    then have "instrument u \<in> instrument ` set ?sr \<or> instrument u \<in> instrument ` set ?sa"
      by auto
    then have "instrument u \<in> set ?R \<or> instrument u \<in> set ?A"
      unfolding instrument_set_stamped .
    then show "\<not> (isinCode (instrument u) \<in> isinCode ` set ?P
                 \<and> isinCode (instrument u) \<in> isinCode ` createInstrument ` set rows)"
      by auto
  qed
  from ups 1 2 3 4 show ?thesis by blast
qed

theorem diff_complete_witness:
  "fst (saveDataFileToS3 demoEnv demoRows (JsonBody demoState) demoWorld) = Inr demoLog
   \<and> stringISINs (instruments demoState)
   \<and> stringISINs (map createInstrument demoRows)
   \<and> distinct (map isinCode (instruments demoState))
   \<and> distinct (map isinCode (map createInstrument demoRows))
   \<and> (\<exists>new. demoLog = updates demoState @ new
           \<and> isinCode ` instrument ` {u \<in> set new. utype u = ''removed''}
               = isinCode ` set (instruments demoState) - isinCode ` createInstrument ` set demoRows
           \<and> isinCode ` instrument ` {u \<in> set new. utype u = ''added''}
               = isinCode ` createInstrument ` set demoRows - isinCode ` set (instruments demoState)
           \<and> (\<forall>u\<in>set new. utype u = ''removed'' \<or> utype u = ''added'')
           \<and> (\<forall>u\<in>set new. \<not> (isinCode (instrument u) \<in> isinCode ` set (instruments demoState)
                                 \<and> isinCode (instrument u) \<in> isinCode ` createInstrument ` set demoRows)))"
  using diff_complete [OF demo_first demo_strP demo_strs demo_dP demo_dN]
    demo_first demo_strP demo_strs demo_dP demo_dN
  by (intro conjI)

text \<open>
  C3 (what the run returns). As stated the claim fails: \<^verbatim>\<open>saveDataFileToS3\<close> returns
  \<^verbatim>\<open>dataFile.updates\<close>, the whole log. Run against the example state after its first
  run, it appends nothing and persists the same state, and still returns the three
  records of the log.
\<close>

theorem save_returns_appended_only_counterexample:
  "fst (saveDataFileToS3 demoEnv demoRows (JsonBody demoNext) demoWorld) = Inr demoLog
   \<and> updates demoNext = demoLog
   \<and> bucket (snd (saveDataFileToS3 demoEnv demoRows (JsonBody demoNext) demoWorld))
        DATA_FILE_NAME = Some (JsonBody demoNext)
   \<and> appended demoEnv (ticks demoWorld)
        (array_sort instrumentSortCompare (instruments demoNext))
        (array_sort instrumentSortCompare (map createInstrument demoRows)) = []
   \<and> length demoLog = 3"
  by code_simp

text \<open>
  C3, amended: a successful run returns the whole updated log, that is the prior log
  followed by the records appended during this run, and this is the log it persisted.
\<close>

theorem save_returns_whole_log:
  assumes "fst (saveDataFileToS3 env rows body w) = Inr ups"
  shows "\<exists>df. body = JsonBody df
           \<and> ups = updates df
               @ appended env (ticks w) (array_sort instrumentSortCompare (instruments df))
                   (array_sort instrumentSortCompare (map createInstrument rows))
           \<and> (\<exists>df'. bucket (snd (saveDataFileToS3 env rows body w)) DATA_FILE_NAME
                        = Some (JsonBody df') \<and> updates df' = ups)"
  using assms by (elim save_success) simp

theorem save_returns_whole_log_witness:
  "fst (saveDataFileToS3 demoEnv demoRows (JsonBody demoState) demoWorld) = Inr demoLog
   \<and> (\<exists>df. JsonBody demoState = JsonBody df
           \<and> demoLog = updates df
               @ appended demoEnv (ticks demoWorld)
                   (array_sort instrumentSortCompare (instruments df))
                   (array_sort instrumentSortCompare (map createInstrument demoRows))
           \<and> (\<exists>df'. bucket (snd (saveDataFileToS3 demoEnv demoRows (JsonBody demoState) demoWorld))
                        DATA_FILE_NAME = Some (JsonBody df') \<and> updates df' = demoLog))"
  using save_returns_whole_log [OF demo_first] demo_first
  by (intro conjI)

text \<open>
  C4 (sort invariant). As stated the claim fails: nothing removes duplicates. Two rows
  with the same ISIN pass the validator and the selector, the run succeeds, and the
  persisted instruments hold the ISIN twice.
\<close>

theorem persisted_instruments_strict_counterexample:
  "doParseAndValidation (demoParse demoDupRows) ''body'' = Inr demoDupRows
   \<and> selectInstruments demoDupRows = demoDupRows
   \<and> \<not> isl (fst (saveDataFileToS3 demoEnv demoDupRows (JsonBody demoState) demoWorld))
   \<and> bucket (snd (saveDataFileToS3 demoEnv demoDupRows (JsonBody demoState) demoWorld))
        DATA_FILE_NAME = Some (JsonBody demoDupNext)
   \<and> \<not> distinct (map isinCode (instruments demoDupNext))
   \<and> \<not> sorted_wrt (\<lambda>a b. js_lt (isinCode a) (isinCode b)) (instruments demoDupNext)"
  by code_simp

text \<open>
  C4, amended: after a successful run on rows with string ISINs the persisted
  instruments are the sorted instruments of the selected rows: the same instruments,
  each as often as the rows have it (the same multiset), ascending by \<^verbatim>\<open>isinCode\<close> (no
  element is greater than a later one); when the selected rows have no duplicate ISIN
  the sequence is strictly ascending and has no duplicate ISIN.
\<close>

theorem persisted_instruments_sorted:
  assumes ok: "fst (saveDataFileToS3 env rows body w) = Inr ups"
    and strN: "stringISINs (map createInstrument rows)"
  shows "\<exists>df'. bucket (snd (saveDataFileToS3 env rows body w)) DATA_FILE_NAME = Some (JsonBody df')
           \<and> instruments df' = array_sort instrumentSortCompare (map createInstrument rows)
           \<and> mset (instruments df') = mset (map createInstrument rows)
           \<and> sorted_wrt (\<lambda>a b. \<not> js_gt (isinCode a) (isinCode b)) (instruments df')
           \<and> (distinct (map isinCode (map createInstrument rows)) \<longrightarrow>
                sorted_wrt (\<lambda>a b. js_lt (isinCode a) (isinCode b)) (instruments df')
                \<and> distinct (map isinCode (instruments df')))"
proof -
  let ?N = "map createInstrument rows"
  let ?s = "array_sort instrumentSortCompare ?N"
  from ok obtain df where
    b: "bucket (snd (saveDataFileToS3 env rows body w)) DATA_FILE_NAME =
       Some (JsonBody \<lparr> instruments = ?s, updates = ups \<rparr>)"
    by (rule save_success)
  have "sorted (map isinKey (sort_key isinKey ?N))" by simp
  then have "sorted_wrt (\<lambda>a b. isinKey a \<le> isinKey b) ?s"
    using strN by (simp add: array_sort_sort_key sorted_wrt_map)
  then have le: "sorted_wrt (\<lambda>a b. \<not> js_gt (isinCode a) (isinCode b)) ?s"
  proof (rule sorted_wrt_mono_rel [rotated])
    fix a b assume "a \<in> set ?s" "b \<in> set ?s" "isinKey a \<le> isinKey b"
    then show "\<not> js_gt (isinCode a) (isinCode b)"
      using strN by (auto simp: stringISINs_def list_all_iff js_gt_isinKey)
  qed
  have strict: "sorted_wrt (\<lambda>a b. js_lt (isinCode a) (isinCode b)) ?s
                \<and> distinct (map isinCode ?s)" if d: "distinct (map isinCode ?N)"
  proof -
    have "sorted_wrt (\<lambda>a b. js_lt (isinCode a) (isinCode b)) (filter (\<lambda>x. True) ?s)"
      using strN d by (rule sorted_lt_filter_array_sort)
    moreover have "distinct (map isinKey ?N)"
      using distinct_isinKey [OF strN] d by blast
    then have "distinct (map isinKey (sort_key isinKey ?N))"
      by (simp only: distinct_map_sort_key)
    then have "distinct (map isinKey ?s)"
      by (simp only: array_sort_sort_key [OF strN])
    then have "distinct (map isinCode ?s)"
      using distinct_isinKey [of ?s] strN by (simp only: stringISINs_array_sort)
    ultimately show ?thesis by simp
  qed
  have m: "mset ?s = mset ?N" by (rule mset_array_sort)
  show ?thesis
    using b le strict m by simp
qed

theorem persisted_instruments_sorted_witness:
  "fst (saveDataFileToS3 demoEnv demoRows (JsonBody demoState) demoWorld) = Inr demoLog
   \<and> stringISINs (map createInstrument demoRows)
   \<and> distinct (map isinCode (map createInstrument demoRows))
   \<and> (\<exists>df'. bucket (snd (saveDataFileToS3 demoEnv demoRows (JsonBody demoState) demoWorld))
                DATA_FILE_NAME = Some (JsonBody df')
           \<and> instruments df'
               = array_sort instrumentSortCompare (map createInstrument demoRows)
           \<and> mset (instruments df') = mset (map createInstrument demoRows)
           \<and> sorted_wrt (\<lambda>a b. \<not> js_gt (isinCode a) (isinCode b)) (instruments df')
           \<and> sorted_wrt (\<lambda>a b. js_lt (isinCode a) (isinCode b)) (instruments df')
           \<and> distinct (map isinCode (instruments df')))"
  using persisted_instruments_sorted [OF demo_first demo_strs] demo_first demo_strs demo_dN
  by auto

text \<open>
  C5 (append-only update log). After a successful run the persisted updates are the
  prior updates, unchanged in content and position, followed by new records.
\<close>

theorem updates_append_only:
  assumes "fst (saveDataFileToS3 env rows body w) = Inr ups"
  shows "\<exists>df df' new. body = JsonBody df
           \<and> bucket (snd (saveDataFileToS3 env rows body w)) DATA_FILE_NAME = Some (JsonBody df')
           \<and> updates df' = updates df @ new
           \<and> take (length (updates df)) (updates df') = updates df"
  using assms by (elim save_success) simp

theorem updates_append_only_witness:
  "fst (saveDataFileToS3 demoEnv demoRows (JsonBody demoState) demoWorld) = Inr demoLog
   \<and> (\<exists>df df' new. JsonBody demoState = JsonBody df
           \<and> bucket (snd (saveDataFileToS3 demoEnv demoRows (JsonBody demoState) demoWorld))
                DATA_FILE_NAME = Some (JsonBody df')
           \<and> updates df' = updates df @ new
           \<and> take (length (updates df)) (updates df') = updates df)"
  using updates_append_only [OF demo_first] demo_first
  by (intro conjI)

text \<open>
  C6 (order of the appended records). For a prior and a new sequence with string ISINs
  and no duplicates, the records a successful run appends are first the \<^verbatim>\<open>removed\<close>
  ones, carrying the instruments of the sorted prior sequence that the new one lacks,
  in that order, then the \<^verbatim>\<open>added\<close> ones, carrying the instruments of the sorted new
  sequence that the prior one lacks, in that order; both runs of instruments are
  strictly ascending by \<^verbatim>\<open>isinCode\<close>.
\<close>

theorem appended_order:
  assumes ok: "fst (saveDataFileToS3 env rows (JsonBody df) w) = Inr ups"
    and strP: "stringISINs (instruments df)"
    and strN: "stringISINs (map createInstrument rows)"
    and dP: "distinct (map isinCode (instruments df))"
    and dN: "distinct (map isinCode (map createInstrument rows))"
  shows "\<exists>new R A. ups = updates df @ new
           \<and> R = filter (\<lambda>p. isinCode p \<notin> isinCode ` createInstrument ` set rows)
                   (array_sort instrumentSortCompare (instruments df))
           \<and> A = filter (\<lambda>n. isinCode n \<notin> isinCode ` set (instruments df))
                   (array_sort instrumentSortCompare (map createInstrument rows))
           \<and> map instrument new = R @ A
           \<and> map utype new = replicate (length R) ''removed'' @ replicate (length A) ''added''
           \<and> sorted_wrt (\<lambda>a b. js_lt (isinCode a) (isinCode b)) R
           \<and> sorted_wrt (\<lambda>a b. js_lt (isinCode a) (isinCode b)) A"
proof -
  from ok obtain df0 where "JsonBody df = JsonBody df0"
    and "ups = updates df0
           @ appended env (ticks w) (array_sort instrumentSortCompare (instruments df0))
               (array_sort instrumentSortCompare (map createInstrument rows))"
    by (rule save_success)
  then have ups: "ups = updates df
           @ appended env (ticks w) (array_sort instrumentSortCompare (instruments df))
               (array_sort instrumentSortCompare (map createInstrument rows))"
    by simp
  note app = appended_sorted [OF strP strN dP dN, of env "ticks w"]
  show ?thesis
    unfolding ups app
    using sorted_lt_filter_array_sort [OF strP dP] sorted_lt_filter_array_sort [OF strN dN]
    by simp
qed

theorem appended_order_witness:
  "fst (saveDataFileToS3 demoEnv demoRows (JsonBody demoState) demoWorld) = Inr demoLog
   \<and> stringISINs (instruments demoState)
   \<and> stringISINs (map createInstrument demoRows)
   \<and> distinct (map isinCode (instruments demoState))
   \<and> distinct (map isinCode (map createInstrument demoRows))
   \<and> (\<exists>new R A. demoLog = updates demoState @ new
           \<and> R = filter (\<lambda>p. isinCode p \<notin> isinCode ` createInstrument ` set demoRows)
                   (array_sort instrumentSortCompare (instruments demoState))
           \<and> A = filter (\<lambda>n. isinCode n \<notin> isinCode ` set (instruments demoState))
                   (array_sort instrumentSortCompare (map createInstrument demoRows))
           \<and> map instrument new = R @ A
           \<and> map utype new = replicate (length R) ''removed'' @ replicate (length A) ''added''
           \<and> sorted_wrt (\<lambda>a b. js_lt (isinCode a) (isinCode b)) R
           \<and> sorted_wrt (\<lambda>a b. js_lt (isinCode a) (isinCode b)) A)"
  using appended_order [OF demo_first demo_strP demo_strs demo_dP demo_dN]
    demo_first demo_strP demo_strs demo_dP demo_dN
  by (intro conjI)

text \<open>
  C7 (the validator raises if and only if). The claim is what the code sets out to do
  and misses for one body. A body without a data array is to end in the
  \<^verbatim>\<open>InstrumentError\<close> \<^verbatim>\<open>invalid data\<close> carrying the data field, and the bodies \<^verbatim>\<open>{}\<close>
  and \<^verbatim>\<open>[]\<close> do. The body \<^verbatim>\<open>null\<close> parses as JSON and has no data field either, but
  \<^verbatim>\<open>parsedBody.data\<close> is read before that test with no guard on \<^verbatim>\<open>parsedBody\<close>, and
  the read throws a \<^verbatim>\<open>TypeError\<close>. Both variants of the source read it so.
\<close>

theorem validation_null_body_TypeError:
  "demoParseBare ''null'' = Some JNull
   \<and> \<not> bodyOk (JNull :: nat jsvalue)
   \<and> dataField (JNull :: nat jsvalue) = JUndefined
   \<and> doParseAndValidation demoParseBare ''null'' = Inl TypeError
   \<and> doParseAndValidation_part_000 demoParseBare ''null'' = Inl TypeError
   \<and> doParseAndValidation demoParseBare ''{}'' = Inl (InstrumentError ''invalid data'' JUndefined)
   \<and> doParseAndValidation demoParseBare ''[]'' = Inl (InstrumentError ''invalid data'' JUndefined)"
  by code_simp

theorem validation_null_body_TypeError_witness:
  "doParseAndValidation demoParseBare ''null'' = Inl TypeError
   \<and> doParseAndValidation demoParseBare ''{}'' = Inl (InstrumentError ''invalid data'' JUndefined)"
  using validation_null_body_TypeError by blast

text \<open>
  Away from that body the validator does what the claim says: for every body that
  parses to a JSON value other than \<^verbatim>\<open>null\<close> (\<^verbatim>\<open>JSON.parse\<close> never yields
  \<^verbatim>\<open>undefined\<close>), \<^verbatim>\<open>doParseAndValidation\<close> throws an \<^verbatim>\<open>InstrumentError\<close> if and only
  if the body is not well-formed, the error then carries an offending element, and
  otherwise the rows of the data field are returned unchanged.
\<close>

theorem validation_raises_iff:
  assumes "JSON_parse body = Some v" "v \<noteq> JNull" "v \<noteq> JUndefined"
  shows "((\<exists>m e. doParseAndValidation JSON_parse body = Inl (InstrumentError m e))
            \<longleftrightarrow> \<not> bodyOk v)
         \<and> (\<not> bodyOk v \<longrightarrow>
              (\<exists>m e. doParseAndValidation JSON_parse body = Inl (InstrumentError m e)
                      \<and> offending v e))
         \<and> (bodyOk v \<longrightarrow>
              doParseAndValidation JSON_parse body = Inr (elements (dataField v)))"
proof -
  note val = doParseAndValidation_value [of JSON_parse body v, OF assms]
  have ok: "doParseAndValidation JSON_parse body = Inr (elements (dataField v))" if "bodyOk v"
    using that by (simp add: val bodyOk_def forEach_validateRow_ok)
  have bad: "\<exists>m e. doParseAndValidation JSON_parse body = Inl (InstrumentError m e)
                    \<and> offending v e" if nok: "\<not> bodyOk v"
  proof (cases "dataOk (dataField v)")
    case True
    with nok have "\<not> list_all rowOk (elements (dataField v))"
      by (simp add: bodyOk_def)
    from forEach_validateRow_bad [OF this] True show ?thesis
      by (auto simp: val offending_def)
  next
    case False
    then show ?thesis by (simp add: val offending_def)
  qed
  from ok bad show ?thesis by (cases "bodyOk v") auto
qed

theorem validation_raises_iff_witness:
  "demoParse [demoShortRow] ''body'' = Some (JObj [(''data'', JArr [demoShortRow])])
   \<and> JObj [(''data'', JArr [demoShortRow])] \<noteq> (JNull :: nat jsvalue)
   \<and> JObj [(''data'', JArr [demoShortRow])] \<noteq> (JUndefined :: nat jsvalue)
   \<and> \<not> bodyOk (JObj [(''data'', JArr [demoShortRow])])
   \<and> (\<exists>m e. doParseAndValidation (demoParse [demoShortRow]) ''body''
                = Inl (InstrumentError m e)
              \<and> offending (JObj [(''data'', JArr [demoShortRow])]) e)"
proof -
  have p: "demoParse [demoShortRow] ''body'' = Some (JObj [(''data'', JArr [demoShortRow])])"
    by (simp add: demoParse_def)
  from validation_raises_iff [of "demoParse [demoShortRow]" "''body''", OF p] demoShort_bad p
  show ?thesis by simp
qed

text \<open>
  C9 (equivalence of the two variants). As stated the claim fails: the variant in
  src/unnamed/part_000 wants exactly five fields in a row, the other one five to seven.
  A body with a six-field row is accepted by one and rejected by the other.
\<close>

theorem variants_differ_counterexample:
  "doParseAndValidation (demoParse [demoLongRow]) ''body'' = Inr [demoLongRow]
   \<and> doParseAndValidation_part_000 (demoParse [demoLongRow]) ''body''
        = Inl (InstrumentError ''invalid instrument row'' demoLongRow)"
  by code_simp

text \<open>
  C9, amended: every body that \<^verbatim>\<open>doParseAndValidation\<close> of src/unnamed/part_000
  accepts is accepted by the one of src/instrument-updates-generator.js with the same
  rows; on every body none of whose rows is an array of six or seven fields the two
  give the same result, error included; and every body that has a row of six or seven
  fields is rejected by the one of src/unnamed/part_000.
\<close>

theorem variants_agree:
  "(doParseAndValidation_part_000 JSON_parse body = Inr rows
      \<longrightarrow> doParseAndValidation JSON_parse body = Inr rows)
   \<and> ((\<forall>v. JSON_parse body = Some v \<longrightarrow>
          list_all (\<lambda>r. \<not> (isArray r \<and> (js_length r = 6 \<or> js_length r = 7)))
            (elements (dataField v)))
      \<longrightarrow> doParseAndValidation_part_000 JSON_parse body = doParseAndValidation JSON_parse body)
   \<and> (\<forall>v. JSON_parse body = Some v
            \<and> list_ex (\<lambda>r. isArray r \<and> (js_length r = 6 \<or> js_length r = 7))
                 (elements (dataField v))
          \<longrightarrow> isl (doParseAndValidation_part_000 JSON_parse body))"
proof (intro conjI impI)
  assume "doParseAndValidation_part_000 JSON_parse body = Inr rows"
  then show "doParseAndValidation JSON_parse body = Inr rows"
    by (auto simp: doParseAndValidation_part_000_def doParseAndValidation_def Let_def
        split: option.splits sum.splits if_splits dest: forEach_part_000_Inr)
next
  assume a: "\<forall>v. JSON_parse body = Some v \<longrightarrow>
          list_all (\<lambda>r. \<not> (isArray r \<and> (js_length r = 6 \<or> js_length r = 7)))
            (elements (dataField v))"
  show "doParseAndValidation_part_000 JSON_parse body = doParseAndValidation JSON_parse body"
  proof (cases "JSON_parse body")
    case None
    then show ?thesis
      by (simp add: doParseAndValidation_part_000_def doParseAndValidation_def)
  next
    case (Some v)
    with a have "forEach validateRow_part_000 (elements (dataField v))
                   = forEach validateRow (elements (dataField v))"
      by (simp add: forEach_part_000_eq)
    moreover have "get_data v = Inl TypeError \<or> get_data v = Inr (dataField v)"
      by (cases v) simp_all
    ultimately show ?thesis
      using Some
      by (auto simp: doParseAndValidation_part_000_def doParseAndValidation_def Let_def)
  qed
next
  show "\<forall>v. JSON_parse body = Some v
            \<and> list_ex (\<lambda>r. isArray r \<and> (js_length r = 6 \<or> js_length r = 7))
                 (elements (dataField v))
          \<longrightarrow> isl (doParseAndValidation_part_000 JSON_parse body)"
    by (blast intro: part_000_rejects_long)
qed

theorem variants_agree_witness:
  "doParseAndValidation_part_000 (demoParse demoRows) ''body'' = Inr demoRows
   \<and> doParseAndValidation (demoParse demoRows) ''body'' = Inr demoRows
   \<and> list_all (\<lambda>r. \<not> (isArray r \<and> (js_length r = 6 \<or> js_length r = 7)))
        (elements (dataField (JObj [(''data'', JArr [demoShortRow])])))
   \<and> doParseAndValidation_part_000 (demoParse [demoShortRow]) ''body''
        = doParseAndValidation (demoParse [demoShortRow]) ''body''
   \<and> demoParse [demoLongRow] ''body'' = Some (JObj [(''data'', JArr [demoLongRow])])
   \<and> list_ex (\<lambda>r. isArray r \<and> (js_length r = 6 \<or> js_length r = 7))
        (elements (dataField (JObj [(''data'', JArr [demoLongRow])])))
   \<and> isl (doParseAndValidation_part_000 (demoParse [demoLongRow]) ''body'')"
proof -
  have 1: "doParseAndValidation_part_000 (demoParse demoRows) ''body'' = Inr demoRows"
    by code_simp
  have 2: "list_all (\<lambda>r. \<not> (isArray r \<and> (js_length r = 6 \<or> js_length r = 7)))
        (elements (dataField (JObj [(''data'', JArr [demoShortRow])])))"
    by code_simp
  have 3: "\<forall>v. demoParse [demoShortRow] ''body'' = Some v \<longrightarrow>
          list_all (\<lambda>r. \<not> (isArray r \<and> (js_length r = 6 \<or> js_length r = 7)))
            (elements (dataField v))"
    using 2 by (simp add: demoParse_def)
  from variants_agree [of "demoParse demoRows" "''body''" demoRows] 1
  have 4: "doParseAndValidation (demoParse demoRows) ''body'' = Inr demoRows" by blast
  from variants_agree [of "demoParse [demoShortRow]" "''body''" demoRows] 3
  have 5: "doParseAndValidation_part_000 (demoParse [demoShortRow]) ''body''
        = doParseAndValidation (demoParse [demoShortRow]) ''body''" by blast
  have 6: "demoParse [demoLongRow] ''body'' = Some (JObj [(''data'', JArr [demoLongRow])])"
    by (simp add: demoParse_def)
  have 7: "list_ex (\<lambda>r. isArray r \<and> (js_length r = 6 \<or> js_length r = 7))
        (elements (dataField (JObj [(''data'', JArr [demoLongRow])])))"
    by code_simp
  from variants_agree [of "demoParse [demoLongRow]" "''body''" demoRows] 6 7
  have 8: "isl (doParseAndValidation_part_000 (demoParse [demoLongRow]) ''body'')" by blast
  from 1 2 4 5 6 7 8 show ?thesis by (intro conjI)
qed

text \<open>
  C8 (commit before render). A run whose fetch fails, or whose validation fails, ends
  with that error and leaves the world as it was: no storage write. A run that reaches
  the reconciliation path (the data file exists and is read) either fails in
  \<^verbatim>\<open>saveDataFileToS3\<close>, and then ends with that error, no write and no rendering
  attempt; or it completes the write of \<^verbatim>\<open>data.json\<close> and only then attempts to render,
  and whatever happens afterwards, a rendering failure included, the bucket holds the
  reconciled state: the new sorted instruments and the update log the run returned.
\<close>

theorem commit_before_render:
  "(\<forall>e. getInstrumentsData env = Inl e \<longrightarrow> Handler env w = (Inl e, w))
   \<and> (\<forall>body e. getInstrumentsData env = Inr body
                \<and> doParseAndValidation (json_parse env) body = Inl e
          \<longrightarrow> Handler env w = (Inl e, w))
   \<and> (\<forall>body validated b.
         getInstrumentsData env = Inr body
         \<and> doParseAndValidation (json_parse env) body = Inr validated
         \<and> doesDataFileExist env w = Inr True
         \<and> fst (readDataFileFromS3 env w) = Inr (Some b)
         \<longrightarrow>
         (\<forall>e. fst (saveDataFileToS3 env (selectInstruments validated) b w) = Inl e
            \<longrightarrow> fst (Handler env w) = Inl e
                \<and> events (snd (Handler env w)) = events w
                \<and> bucket (snd (Handler env w)) = bucket w)
         \<and> (\<forall>ups. fst (saveDataFileToS3 env (selectInstruments validated) b w) = Inr ups
            \<longrightarrow> (\<exists>rest. events (snd (Handler env w))
                          = events w @ PutObject DATA_FILE_NAME # RenderFile # rest)
                \<and> (\<exists>df'. bucket (snd (Handler env w)) DATA_FILE_NAME = Some (JsonBody df')
                          \<and> updates df' = ups
                          \<and> instruments df'
                              = array_sort instrumentSortCompare
                                  (map createInstrument (selectInstruments validated)))
                \<and> (ejs_render env (presented env ups) = None
                     \<longrightarrow> (\<exists>m. fst (Handler env w) = Inl (EjsError m)))))"
proof (intro conjI allI impI; (elim conjE)?)
  fix e assume "getInstrumentsData env = Inl e"
  then show "Handler env w = (Inl e, w)" by (rule Handler_fetch_error)
next
  fix body e
  assume "getInstrumentsData env = Inr body" "doParseAndValidation (json_parse env) body = Inl e"
  then show "Handler env w = (Inl e, w)" by (rule Handler_validation_error)
next
  fix body validated b e
  assume a: "getInstrumentsData env = Inr body"
    "doParseAndValidation (json_parse env) body = Inr validated"
    "doesDataFileExist env w = Inr True"
    "fst (readDataFileFromS3 env w) = Inr (Some b)"
    and f: "fst (saveDataFileToS3 env (selectInstruments validated) b w) = Inl e"
  note H = Handler_after_save_fail [OF a f]
  show "fst (Handler env w) = Inl e" by (simp add: H)
  show "events (snd (Handler env w)) = events w" by (simp add: H save_fail_effect [OF f])
  show "bucket (snd (Handler env w)) = bucket w" by (simp add: H save_fail_effect [OF f])
next
  fix body validated b ups
  assume a: "getInstrumentsData env = Inr body"
    "doParseAndValidation (json_parse env) body = Inr validated"
    "doesDataFileExist env w = Inr True"
    "fst (readDataFileFromS3 env w) = Inr (Some b)"
    and ok: "fst (saveDataFileToS3 env (selectInstruments validated) b w) = Inr ups"
  note H = Handler_after_save_ok [OF a ok]
  show "\<exists>rest. events (snd (Handler env w))
                  = events w @ PutObject DATA_FILE_NAME # RenderFile # rest"
    using H(1) by (simp add: save_ok_effect(1) [OF ok])
  show "\<exists>df'. bucket (snd (Handler env w)) DATA_FILE_NAME = Some (JsonBody df')
                          \<and> updates df' = ups
                          \<and> instruments df'
                              = array_sort instrumentSortCompare
                                  (map createInstrument (selectInstruments validated))"
    using save_ok_effect(2) [OF ok] by (simp add: H(2))
  show "\<exists>m. fst (Handler env w) = Inl (EjsError m)" if "ejs_render env (presented env ups) = None"
    using that by (rule H(3))
qed

theorem commit_before_render_witness:
  "getInstrumentsData demoEnvNoRender = Inr ''body''
   \<and> doParseAndValidation (json_parse demoEnvNoRender) ''body'' = Inr demoRows
   \<and> doesDataFileExist demoEnvNoRender demoWorld = Inr True
   \<and> fst (readDataFileFromS3 demoEnvNoRender demoWorld) = Inr (Some (JsonBody demoState))
   \<and> fst (saveDataFileToS3 demoEnvNoRender (selectInstruments demoRows) (JsonBody demoState)
            demoWorld) = Inr demoLog
   \<and> ejs_render demoEnvNoRender (presented demoEnvNoRender demoLog) = None
   \<and> (\<exists>rest. events (snd (Handler demoEnvNoRender demoWorld))
                = events demoWorld @ PutObject DATA_FILE_NAME # RenderFile # rest)
   \<and> (\<exists>df'. bucket (snd (Handler demoEnvNoRender demoWorld)) DATA_FILE_NAME
                = Some (JsonBody df')
             \<and> updates df' = demoLog
             \<and> instruments df'
                 = array_sort instrumentSortCompare
                     (map createInstrument (selectInstruments demoRows)))
   \<and> (\<exists>m. fst (Handler demoEnvNoRender demoWorld) = Inl (EjsError m))
   \<and> getInstrumentsData demoEnvShortRow = Inr ''body''
   \<and> doParseAndValidation (json_parse demoEnvShortRow) ''body''
        = Inl (InstrumentError ''invalid instrument row'' demoShortRow)
   \<and> Handler demoEnvShortRow demoWorld
        = (Inl (InstrumentError ''invalid instrument row'' demoShortRow), demoWorld)"
proof -
  have 1: "getInstrumentsData demoEnvNoRender = Inr ''body''" by code_simp
  have 2: "doParseAndValidation (json_parse demoEnvNoRender) ''body'' = Inr demoRows"
    by code_simp
  have 3: "doesDataFileExist demoEnvNoRender demoWorld = Inr True" by code_simp
  have 4: "fst (readDataFileFromS3 demoEnvNoRender demoWorld) = Inr (Some (JsonBody demoState))"
    by code_simp
  have 5: "fst (saveDataFileToS3 demoEnvNoRender (selectInstruments demoRows)
                  (JsonBody demoState) demoWorld) = Inr demoLog"
    by code_simp
  have 6: "ejs_render demoEnvNoRender (presented demoEnvNoRender demoLog) = None"
    by (simp add: demoEnvNoRender_def)
  have 7: "getInstrumentsData demoEnvShortRow = Inr ''body''" by code_simp
  have 8: "doParseAndValidation (json_parse demoEnvShortRow) ''body''
             = Inl (InstrumentError ''invalid instrument row'' demoShortRow)"
    by code_simp
  note T1 = commit_before_render [of demoEnvNoRender demoWorld]
  note T2 = commit_before_render [of demoEnvShortRow demoWorld]
  from T1 1 2 3 4 5 6
  have A: "(\<exists>rest. events (snd (Handler demoEnvNoRender demoWorld))
                = events demoWorld @ PutObject DATA_FILE_NAME # RenderFile # rest)
   \<and> (\<exists>df'. bucket (snd (Handler demoEnvNoRender demoWorld)) DATA_FILE_NAME
                = Some (JsonBody df')
             \<and> updates df' = demoLog
             \<and> instruments df'
                 = array_sort instrumentSortCompare
                     (map createInstrument (selectInstruments demoRows)))
   \<and> (\<exists>m. fst (Handler demoEnvNoRender demoWorld) = Inl (EjsError m))"
    by blast
  from T2 7 8
  have B: "Handler demoEnvShortRow demoWorld
        = (Inl (InstrumentError ''invalid instrument row'' demoShortRow), demoWorld)"
    by blast
  from 1 2 3 4 5 6 A 7 8 B show ?thesis by (intro conjI) blast+
qed

text \<open>
  C10 (determinism of the core transforms). \<^verbatim>\<open>doParseAndValidation\<close> depends on the
  parser only through the value the body parses to; \<^verbatim>\<open>selectInstruments\<close> decides on
  each row from the row alone; and two executions of \<^verbatim>\<open>saveDataFileToS3\<close> on the same
  rows and the same prior blob, with clocks that supply the same stamps and the same
  outcome of the write, give the same result (the same returned list or the same
  error) and, when they succeed, the same written blob, whatever else differs in the
  collaborators and the world.
\<close>

theorem core_deterministic:
  "(JSON_parse1 body = JSON_parse2 body
      \<longrightarrow> doParseAndValidation JSON_parse1 body = doParseAndValidation JSON_parse2 body)
   \<and> selectInstruments rows = filter (\<lambda>r. selectInstruments [r] = [r]) rows
   \<and> ((\<forall>k. clock env1 (ticks w1 + k) = clock env2 (ticks w2 + k))
        \<and> s3_put_fault env1 DATA_FILE_NAME = s3_put_fault env2 DATA_FILE_NAME
      \<longrightarrow> fst (saveDataFileToS3 env1 rows b w1) = fst (saveDataFileToS3 env2 rows b w2)
          \<and> (\<forall>ups. fst (saveDataFileToS3 env1 rows b w1) = Inr ups
                \<longrightarrow> bucket (snd (saveDataFileToS3 env1 rows b w1)) DATA_FILE_NAME
                    = bucket (snd (saveDataFileToS3 env2 rows b w2)) DATA_FILE_NAME))"
proof (intro conjI impI)
  assume "JSON_parse1 body = JSON_parse2 body"
  then show "doParseAndValidation JSON_parse1 body = doParseAndValidation JSON_parse2 body"
    by (simp add: doParseAndValidation_def)
next
  show "selectInstruments rows = filter (\<lambda>r. selectInstruments [r] = [r]) rows"
    by (auto simp: selectInstruments_def intro!: filter_cong)
next
  assume a: "(\<forall>k. clock env1 (ticks w1 + k) = clock env2 (ticks w2 + k))
        \<and> s3_put_fault env1 DATA_FILE_NAME = s3_put_fault env2 DATA_FILE_NAME"
  show "fst (saveDataFileToS3 env1 rows b w1) = fst (saveDataFileToS3 env2 rows b w2)"
  proof (cases b)
    case (JsonBody df)
    have "appended env1 (ticks w1) old new = appended env2 (ticks w2) old new" for old new
      using a by (intro appended_clock_cong) simp
    with a show ?thesis
      unfolding JsonBody by (simp add: save_JsonBody Let_def split: option.split)
  next
    case (HtmlBody s)
    then show ?thesis by (simp add: save_HtmlBody)
  qed
next
  assume a: "(\<forall>k. clock env1 (ticks w1 + k) = clock env2 (ticks w2 + k))
        \<and> s3_put_fault env1 DATA_FILE_NAME = s3_put_fault env2 DATA_FILE_NAME"
  show "\<forall>ups. fst (saveDataFileToS3 env1 rows b w1) = Inr ups
                \<longrightarrow> bucket (snd (saveDataFileToS3 env1 rows b w1)) DATA_FILE_NAME
                    = bucket (snd (saveDataFileToS3 env2 rows b w2)) DATA_FILE_NAME"
  proof (cases b)
    case (JsonBody df)
    have "appended env1 (ticks w1) old new = appended env2 (ticks w2) old new" for old new
      using a by (intro appended_clock_cong) simp
    with a show ?thesis
      unfolding JsonBody by (simp add: save_JsonBody Let_def split: option.split)
  next
    case (HtmlBody s)
    then show ?thesis by (simp add: save_HtmlBody)
  qed
qed

theorem core_deterministic_witness:
  "demoParse demoRows ''body'' = demoParseBody ''body''
   \<and> doParseAndValidation (demoParse demoRows) ''body''
        = doParseAndValidation demoParseBody ''body''
   \<and> (\<forall>k. clock demoEnv (ticks demoWorld + k) = clock demoEnvLater (ticks demoWorld + k))
   \<and> s3_put_fault demoEnv DATA_FILE_NAME = s3_put_fault demoEnvLater DATA_FILE_NAME
   \<and> fst (saveDataFileToS3 demoEnv demoRows (JsonBody demoState) demoWorld) = Inr demoLog
   \<and> fst (saveDataFileToS3 demoEnvLater demoRows (JsonBody demoState) demoWorld) = Inr demoLog
   \<and> bucket (snd (saveDataFileToS3 demoEnv demoRows (JsonBody demoState) demoWorld))
        DATA_FILE_NAME
       = bucket (snd (saveDataFileToS3 demoEnvLater demoRows (JsonBody demoState) demoWorld))
           DATA_FILE_NAME"
proof -
  have c: "\<forall>k. clock demoEnv (ticks demoWorld + k) = clock demoEnvLater (ticks demoWorld + k)"
    by (simp add: demoEnv_def demoEnvLater_def)
  have p: "s3_put_fault demoEnv DATA_FILE_NAME = s3_put_fault demoEnvLater DATA_FILE_NAME"
    by (simp add: demoEnv_def demoEnvLater_def)
  have q: "demoParse demoRows ''body'' = demoParseBody ''body''"
    by (simp add: demoParse_def demoParseBody_def)
  note T = core_deterministic [of "demoParse demoRows" "''body''" demoParseBody demoRows
      demoEnv demoWorld demoEnvLater demoWorld "JsonBody demoState"]
  from T q
  have r: "doParseAndValidation (demoParse demoRows) ''body''
        = doParseAndValidation demoParseBody ''body''"
    by blast
  from T c p demo_first
  have "fst (saveDataFileToS3 demoEnvLater demoRows (JsonBody demoState) demoWorld) = Inr demoLog
   \<and> bucket (snd (saveDataFileToS3 demoEnv demoRows (JsonBody demoState) demoWorld))
        DATA_FILE_NAME
       = bucket (snd (saveDataFileToS3 demoEnvLater demoRows (JsonBody demoState) demoWorld))
           DATA_FILE_NAME"
    by auto
  with c p q r demo_first show ?thesis by auto
qed

end
